theory Spec2Isabelle
  imports Main
begin

section \<open>Strings of the page script\<close>

text \<open>
  A JavaScript string is a sequence of UTF-16 code units; \<open>length\<close>, \<open>slice\<close>,
  \<open>trim\<close> and the regular expressions of the script (none has the \<open>u\<close> flag) all
  work on code units. A code unit is modelled as a natural number, and \<open>js\<close> writes an
  ASCII literal of the source.
\<close>

type_synonym jsstring = "nat list"

definition js :: "string \<Rightarrow> jsstring" where
  "js s = map of_char s"

text \<open>White space and line terminators: what \<open>trim\<close> strips and \<open>\s\<close> matches.\<close>

definition is_space :: "nat \<Rightarrow> bool" where
  "is_space c \<longleftrightarrow>
     c = 9 \<or> c = 10 \<or> c = 11 \<or> c = 12 \<or> c = 13 \<or> c = 32 \<or> c = 160 \<or> c = 5760 \<or>
     (8192 \<le> c \<and> c \<le> 8202) \<or> c = 8232 \<or> c = 8233 \<or> c = 8239 \<or> c = 8287 \<or>
     c = 12288 \<or> c = 65279"

definition is_digit :: "nat \<Rightarrow> bool" where
  "is_digit c \<longleftrightarrow> 48 \<le> c \<and> c \<le> 57"

definition trim :: "jsstring \<Rightarrow> jsstring" where
  "trim s = rev (dropWhile is_space (rev (dropWhile is_space s)))"

text \<open>The decimal rendering of a number in a template literal, as in \<open>${index + 1}\<close>.\<close>

function decimal :: "nat \<Rightarrow> jsstring" where
  "decimal n = (if n < 10 then [48 + n] else decimal (n div 10) @ [48 + n mod 10])"
  by pat_completeness auto
termination
  by (relation "measure id") auto

declare decimal.simps [simp del]

section \<open>Values of the JSON response\<close>

text \<open>
  The value a parsed JSON body can hold, and \<open>undefined\<close> for a property that is not
  there. \<open>JNum n\<close> is the number \<open>n\<close>, for an integer of magnitude below \<open>2^53\<close>,
  which JavaScript keeps exactly and prints with all its digits. Every other number (a
  fraction, or a number beyond that range) is a \<open>JFloat\<close>, known by the text that
  JavaScript prints for it, as in \<open>0.5\<close> or \<open>1e+21\<close>: the script does not
  compute with numbers, and such a number is not zero. An object is the list of its own
  properties.
\<close>

datatype jsval =
    JUndefined
  | JNull
  | JBool bool
  | JNum int
  | JFloat jsstring
  | JStr jsstring
  | JArr "jsval list"
  | JObj "(jsstring \<times> jsval) list"

datatype error = TypeError | SyntaxError

text \<open>
  A statement that may throw, followed by the rest of the block: \<open>and_then\<close> hands
  the error on, \<open>or_stop\<close> also hands on the state the block had reached.
\<close>

definition and_then :: "error + 'a \<Rightarrow> ('a \<Rightarrow> error + 'b) \<Rightarrow> error + 'b" where
  "and_then x f = (case x of Inl e \<Rightarrow> Inl e | Inr v \<Rightarrow> f v)"

definition or_stop :: "'s \<Rightarrow> error + 'a \<Rightarrow> ('a \<Rightarrow> 's \<times> error option) \<Rightarrow> 's \<times> error option" where
  "or_stop s x f = (case x of Inl e \<Rightarrow> (s, Some e) | Inr v \<Rightarrow> f v)"

fun truthy :: "jsval \<Rightarrow> bool" where
  "truthy JUndefined = False"
| "truthy JNull = False"
| "truthy (JBool b) = b"
| "truthy (JNum n) = (n \<noteq> 0)"
| "truthy (JFloat t) = True"
| "truthy (JStr s) = (s \<noteq> [])"
| "truthy (JArr xs) = True"
| "truthy (JObj kvs) = True"

text \<open>\<open>a || b\<close>\<close>

definition js_or :: "jsval \<Rightarrow> jsval \<Rightarrow> jsval" where
  "js_or a b = (if truthy a then a else b)"

text \<open>
  \<open>v.name\<close> for the property names the script reads (\<open>answer\<close>, \<open>sources\<close>,
  \<open>length\<close> and the fields of a Source): reading a property of \<open>null\<close> or
  \<open>undefined\<close> throws, an array and a string have a \<open>length\<close>, an object has its
  own properties, and everything else is \<open>undefined\<close>.
\<close>

fun get :: "jsval \<Rightarrow> jsstring \<Rightarrow> error + jsval" where
  "get JUndefined k = Inl TypeError"
| "get JNull k = Inl TypeError"
| "get (JBool b) k = Inr JUndefined"
| "get (JNum n) k = Inr JUndefined"
| "get (JFloat t) k = Inr JUndefined"
| "get (JStr s) k = Inr (if k = js ''length'' then JNum (int (length s)) else JUndefined)"
| "get (JArr xs) k = Inr (if k = js ''length'' then JNum (int (length xs)) else JUndefined)"
| "get (JObj kvs) k = Inr (case map_of kvs k of None \<Rightarrow> JUndefined | Some v \<Rightarrow> v)"

text \<open>The property key of an integer index.\<close>

definition index_key :: "int \<Rightarrow> jsstring" where
  "index_key i = (if i < 0 then 45 # decimal (nat (- i)) else decimal (nat i))"

text \<open>\<open>v[i]\<close> for an integer \<open>i\<close>.\<close>

fun at_index :: "jsval \<Rightarrow> int \<Rightarrow> error + jsval" where
  "at_index JUndefined i = Inl TypeError"
| "at_index JNull i = Inl TypeError"
| "at_index (JBool b) i = Inr JUndefined"
| "at_index (JNum n) i = Inr JUndefined"
| "at_index (JFloat t) i = Inr JUndefined"
| "at_index (JStr s) i = Inr (if 0 \<le> i \<and> i < int (length s) then JStr [s ! nat i] else JUndefined)"
| "at_index (JArr xs) i = Inr (if 0 \<le> i \<and> i < int (length xs) then xs ! nat i else JUndefined)"
| "at_index (JObj kvs) i = Inr (case map_of kvs (index_key i) of None \<Rightarrow> JUndefined | Some v \<Rightarrow> v)"

section \<open>Regular expressions\<close>

text \<open>
  The fragment of the regular expression language the script uses: a sequence of
  one-character atoms, each optionally quantified by a greedy \<open>?\<close>, \<open>*\<close> or \<open>+\<close>, and
  negative lookahead groups.
\<close>

datatype atom = Lit nat | Space | Digit | OneOf jsstring

datatype node = One atom | Opt atom | Star atom | Plus atom | NegLook "node list"

fun ok :: "atom \<Rightarrow> nat \<Rightarrow> bool" where
  "ok (Lit c) x = (x = c)"
| "ok Space x = is_space x"
| "ok Digit x = is_digit x"
| "ok (OneOf cs) x = (x \<in> set cs)"

text \<open>
  The backtracking matcher: \<open>rmatch p s\<close> tries the pattern at the start of \<open>s\<close> and
  returns what is left of \<open>s\<close> behind the first match in the engine's priority order
  (a greedy quantifier takes a character first and gives it back when the rest fails).
\<close>

function rmatch :: "node list \<Rightarrow> jsstring \<Rightarrow> jsstring option" where
  "rmatch [] s = Some s"
| "rmatch (One a # r) [] = None"
| "rmatch (One a # r) (c # cs) = (if ok a c then rmatch r cs else None)"
| "rmatch (Opt a # r) [] = rmatch r []"
| "rmatch (Opt a # r) (c # cs) =
     (case (if ok a c then rmatch r cs else None) of
        Some rest \<Rightarrow> Some rest
      | None \<Rightarrow> rmatch r (c # cs))"
| "rmatch (Star a # r) [] = rmatch r []"
| "rmatch (Star a # r) (c # cs) =
     (case (if ok a c then rmatch (Star a # r) cs else None) of
        Some rest \<Rightarrow> Some rest
      | None \<Rightarrow> rmatch r (c # cs))"
| "rmatch (Plus a # r) [] = None"
| "rmatch (Plus a # r) (c # cs) = (if ok a c then rmatch (Star a # r) cs else None)"
| "rmatch (NegLook p # r) s = (case rmatch p s of Some rest \<Rightarrow> None | None \<Rightarrow> rmatch r s)"
  by pat_completeness auto
termination
  by (relation "measures [\<lambda>(p, s). length s, \<lambda>(p, s). size_list size p]") auto

text \<open>
  \<open>new RegExp(src)\<close> for that fragment. The parser keeps the sequence read so far
  (latest node first) and the sequences of the groups still open. A backslash followed
  by \<open>s\<close> or \<open>d\<close> is a character class, followed by a syntax character it is that
  character; a quantifier applies to the atom in front of it. Anything outside the fragment
  is \<open>None\<close>.
\<close>

definition syntax_char :: "nat \<Rightarrow> bool" where
  "syntax_char c \<longleftrightarrow> c = 92 \<or> c \<in> set (js ''^$.*+?()[]{}|'')"

definition escape_atom :: "nat \<Rightarrow> atom option" where
  "escape_atom d =
     (if d = 115 then Some Space
      else if d = 100 then Some Digit
      else if syntax_char d then Some (Lit d)
      else None)"

fun parse :: "jsstring \<Rightarrow> node list \<Rightarrow> node list list \<Rightarrow> node list option" where
  "parse [] cur [] = Some (rev cur)"
| "parse [] cur (outer # st) = None"
| "parse (c # cs) cur st =
     (if c = 92 then
        (case cs of
           [] \<Rightarrow> None
         | d # ds \<Rightarrow>
             (case escape_atom d of
                None \<Rightarrow> None
              | Some a \<Rightarrow> parse ds (One a # cur) st))
      else if c = 40 then
        (case cs of
           q # e # ds \<Rightarrow> if q = 63 \<and> e = 33 then parse ds [] (cur # st) else None
         | _ \<Rightarrow> None)
      else if c = 41 then
        (case st of
           [] \<Rightarrow> None
         | outer # st' \<Rightarrow> parse cs (NegLook (rev cur) # outer) st')
      else if c = 63 then
        (case cur of One a # cur' \<Rightarrow> parse cs (Opt a # cur') st | _ \<Rightarrow> None)
      else if c = 42 then
        (case cur of One a # cur' \<Rightarrow> parse cs (Star a # cur') st | _ \<Rightarrow> None)
      else if c = 43 then
        (case cur of One a # cur' \<Rightarrow> parse cs (Plus a # cur') st | _ \<Rightarrow> None)
      else if syntax_char c then None
      else parse cs (One (Lit c) # cur) st)"

definition new_RegExp :: "jsstring \<Rightarrow> error + node list" where
  "new_RegExp src = (case parse src [] [] of None \<Rightarrow> Inl SyntaxError | Some p \<Rightarrow> Inr p)"

subsection \<open>Replacing every match\<close>

text \<open>
  The replacement text of \<open>String.prototype.replace\<close> for a pattern without capture
  groups: \<open>$$\<close> is a dollar sign, \<open>$&\<close> the matched text, \<open>$`\<close> the text in front of
  the match and \<open>$'\<close> the text behind it; every other character stands for itself.
\<close>

fun substitution :: "jsstring \<Rightarrow> jsstring \<Rightarrow> jsstring \<Rightarrow> jsstring \<Rightarrow> jsstring" where
  "substitution matched pre post [] = []"
| "substitution matched pre post [c] = [c]"
| "substitution matched pre post (c # d # ds) =
     (if c = 36 \<and> d = 36 then 36 # substitution matched pre post ds
      else if c = 36 \<and> d = 38 then matched @ substitution matched pre post ds
      else if c = 36 \<and> d = 96 then pre @ substitution matched pre post ds
      else if c = 36 \<and> d = 39 then post @ substitution matched pre post ds
      else c # substitution matched pre post (d # ds))"

text \<open>
  \<open>str.replace(pattern, template)\<close> for a pattern with the \<open>g\<close> flag. The scan goes
  through the string from left to right; \<open>k\<close> counts the characters still covered by
  the match found last, \<open>pre\<close> is the text already passed. Where the pattern
  matches, the match is replaced and the scan goes on behind it (one character further
  when the match is empty); where it does not, the character is kept.
\<close>

fun replace_from :: "node list \<Rightarrow> jsstring \<Rightarrow> nat \<Rightarrow> jsstring \<Rightarrow> jsstring \<Rightarrow> jsstring" where
  "replace_from p t k pre [] =
     (if k = 0 then
        (case rmatch p [] of None \<Rightarrow> [] | Some rest \<Rightarrow> substitution [] pre [] t)
      else [])"
| "replace_from p t (Suc k) pre (c # cs) = replace_from p t k (pre @ [c]) cs"
| "replace_from p t 0 pre (c # cs) =
     (case rmatch p (c # cs) of
        None \<Rightarrow> c # replace_from p t 0 (pre @ [c]) cs
      | Some rest \<Rightarrow>
          (let n = length (c # cs) - length rest in
           substitution (take n (c # cs)) pre rest t @
           (if n = 0 then c # replace_from p t 0 (pre @ [c]) cs
            else replace_from p t (n - 1) (pre @ [c]) cs)))"

definition replace_all :: "jsstring \<Rightarrow> node list \<Rightarrow> jsstring \<Rightarrow> jsstring" where
  "replace_all str p t = replace_from p t 0 [] str"

section \<open>Inline citations\<close>

text \<open>
  \<open>escapeRegExp\<close>: every regular expression syntax character gets a backslash
  (code unit 92) in front.
\<close>

definition escapeRegExp :: "jsstring \<Rightarrow> jsstring" where
  "escapeRegExp str =
     replace_all str [One (OneOf (js ''.*+?^${}()|[]'' @ [92]))] (92 # js ''$&'')"

text \<open>
  The source text of the pattern for one citation, as \<open>applyInlineCitations\<close> builds
  it: an optional opening parenthesis and white space, the escaped citation, white space
  and an optional closing parenthesis, and the lookahead that refuses a match followed by
  a bracketed number.
\<close>

definition flexiblePattern :: "jsstring \<Rightarrow> jsstring" where
  "flexiblePattern citation =
     92 # js ''(?'' @ 92 # js ''s*'' @ escapeRegExp citation @ 92 # js ''s*'' @ 92 # js '')?''"

definition pattern_source :: "jsstring \<Rightarrow> jsstring" where
  "pattern_source citation =
     flexiblePattern citation @
     js ''(?!'' @ 92 # js ''s*'' @ 92 # js ''['' @ 92 # js ''d+'' @ 92 # js ''])''"

definition marker :: "nat \<Rightarrow> jsstring" where
  "marker index =
     js ''<button type='' @ 34 # js ''button'' @ 34 # js '' class='' @
     34 # js ''btn btn-link p-0 citation-link'' @ 34 # js '' data-source-index='' @
     34 # decimal index @ 34 # js ''>['' @ decimal (index + 1) @ js '']</button>''"

text \<open>\<open>s.neutral_citation || s.citation\<close>\<close>

definition citation_of :: "jsval \<Rightarrow> error + jsval" where
  "citation_of s =
     (case get s (js ''neutral_citation'') of
        Inl e \<Rightarrow> Inl e
      | Inr nc \<Rightarrow> if truthy nc then Inr nc else get s (js ''citation''))"

text \<open>
  One round of the \<open>forEach\<close> in \<open>applyInlineCitations\<close>. A Source without a
  citation is passed over. \<open>escapeRegExp\<close> and \<open>replace\<close> are string methods: a
  citation or an answer that is not a string has none, and the call throws.
\<close>

definition annotate_step :: "jsval \<Rightarrow> jsval \<Rightarrow> nat \<Rightarrow> error + jsval" where
  "annotate_step annotated s index =
     (case citation_of s of
        Inl e \<Rightarrow> Inl e
      | Inr citation \<Rightarrow>
          if \<not> truthy citation then Inr annotated
          else
            (case citation of
               JStr c \<Rightarrow>
                 (case new_RegExp (pattern_source c) of
                    Inl e \<Rightarrow> Inl e
                  | Inr pattern \<Rightarrow>
                      (case annotated of
                         JStr a \<Rightarrow> Inr (JStr (replace_all a pattern (c @ 32 # marker index)))
                       | _ \<Rightarrow> Inl TypeError))
             | _ \<Rightarrow> Inl TypeError))"

fun annotate_each :: "jsval \<Rightarrow> jsval list \<Rightarrow> nat \<Rightarrow> error + jsval" where
  "annotate_each annotated [] index = Inr annotated"
| "annotate_each annotated (s # ss) index =
     (case annotate_step annotated s index of
        Inl e \<Rightarrow> Inl e
      | Inr a \<Rightarrow> annotate_each a ss (Suc index))"

text \<open>\<open>sources.length === 0\<close>, for a \<open>sources\<close> that is not \<open>null\<close> or \<open>undefined\<close>.\<close>

definition length_is_0 :: "jsval \<Rightarrow> bool" where
  "length_is_0 v = (get v (js ''length'') = Inr (JNum 0))"

definition applyInlineCitations :: "jsval \<Rightarrow> jsval \<Rightarrow> error + jsval" where
  "applyInlineCitations answerText sources =
     (if \<not> truthy answerText \<or> \<not> truthy sources \<or> length_is_0 sources then Inr answerText
      else
        (case sources of
           JArr ss \<Rightarrow> annotate_each answerText ss 0
         | _ \<Rightarrow> Inl TypeError))"

section \<open>Text of a value\<close>

text \<open>
  The conversion of a value to a string, as a template literal, \<open>join\<close> and the
  \<open>textContent\<close> and \<open>href\<close> setters do it. A number is the text that
  JavaScript prints for it: all the digits of an integer below \<open>2^53\<close>, and the
  text that comes with any other number. An object is \<open>[object Object]\<close>,
  unless it has a property \<open>toString\<close> of its own: a parsed value is no function, and
  the conversion throws. An array is its elements joined by commas, \<open>null\<close> and
  \<open>undefined\<close> elements being empty.
\<close>

fun join_with :: "jsstring \<Rightarrow> jsstring list \<Rightarrow> jsstring" where
  "join_with sep [] = []"
| "join_with sep [x] = x"
| "join_with sep (x # y # ys) = x @ sep @ join_with sep (y # ys)"

fun sequence :: "(error + 'a) list \<Rightarrow> error + 'a list" where
  "sequence [] = Inr []"
| "sequence (x # xs) =
     (case x of
        Inl e \<Rightarrow> Inl e
      | Inr v \<Rightarrow> (case sequence xs of Inl e \<Rightarrow> Inl e | Inr vs \<Rightarrow> Inr (v # vs)))"

fun to_string :: "jsval \<Rightarrow> error + jsstring" where
  "to_string JUndefined = Inr (js ''undefined'')"
| "to_string JNull = Inr (js ''null'')"
| "to_string (JBool b) = Inr (if b then js ''true'' else js ''false'')"
| "to_string (JNum n) = Inr (if n < 0 then 45 # decimal (nat (- n)) else decimal (nat n))"
| "to_string (JFloat t) = Inr t"
| "to_string (JStr s) = Inr s"
| "to_string (JArr xs) =
     (case sequence (map (\<lambda>x. if x = JNull \<or> x = JUndefined then Inr [] else to_string x) xs) of
        Inl e \<Rightarrow> Inl e
      | Inr ts \<Rightarrow> Inr (join_with (js '','') ts))"
| "to_string (JObj kvs) =
     (case map_of kvs (js ''toString'') of
        None \<Rightarrow> Inr (js ''[object Object]'')
      | Some v \<Rightarrow> Inl TypeError)"

section \<open>Rendered markup\<close>

text \<open>
  The script fills the page in two ways. It assigns a string of markup to the
  \<open>innerHTML\<close> of an element, for the browser to read: such a string is kept as the
  script builds it, white space included, with every interpolated value standing in it as
  it is, not escaped. And it makes elements one by one (\<open>createElement\<close>,
  \<open>textContent\<close>, \<open>href\<close>): these are kept as a tree of elements (tag, attributes,
  children) and text.
\<close>

datatype html = Text jsstring | El jsstring "(jsstring \<times> jsstring) list" "html list"

text \<open>
  A child of a panel: markup assigned to the \<open>innerHTML\<close> of the panel itself, or an
  element made by \<open>createElement\<close> and appended, with the properties the script sets
  on it and the markup assigned to its \<open>innerHTML\<close>.
\<close>

datatype item = Markup jsstring | Created jsstring "(jsstring \<times> jsstring) list" jsstring

text \<open>An attribute value of a template, in its double quotes.\<close>

definition quoted :: "string \<Rightarrow> jsstring" where
  "quoted v = 34 # js v @ [34]"

subsection \<open>History panel\<close>

record exchange =
  query :: jsstring
  answer :: jsval
  sources :: jsval
  time :: jsstring

text \<open>The preview of a query: cut at 60 code units, with an ellipsis (U+2026).\<close>

definition snippet :: "jsstring \<Rightarrow> jsstring" where
  "snippet q = (if length q > 60 then take 60 q @ [8230] else q)"

text \<open>
  The button that \<open>renderHistory\<close> makes for one Exchange. Code unit 10 is the line
  break of the template.
\<close>

definition history_entry :: "nat \<Rightarrow> exchange \<Rightarrow> item" where
  "history_entry index item =
     Created (js ''button'')
       [(js ''type'', js ''button''),
        (js ''className'', js ''list-group-item list-group-item-action small text-start'')]
       (10 # js ''      <strong>Query #'' @ decimal (index + 1) @ js ''</strong>'' @
        10 # js ''      <div class='' @ quoted ''text-secondary-emphasis'' @ js ''>'' @
          snippet (query item) @ js ''</div>'' @
        10 # js ''      <div class='' @ quoted ''text-muted small'' @ js ''>'' @
          time item @ js ''</div>'' @
        10 # js ''    '')"

fun history_entries :: "nat \<Rightarrow> exchange list \<Rightarrow> item list" where
  "history_entries index [] = []"
| "history_entries index (item # items) =
     history_entry index item # history_entries (Suc index) items"

text \<open>\<open>renderHistory\<close>: the content of the history list, from \<open>chatHistory\<close>.\<close>

definition renderHistory :: "exchange list \<Rightarrow> item list" where
  "renderHistory chatHistory =
     (if length chatHistory = 0
      then [Markup (js ''<div class='' @ quoted ''p-2 text-secondary-emphasis'' @
              js ''>No questions yet.</div>'')]
      else history_entries 0 chatHistory)"

subsection \<open>Source cards\<close>

text \<open>\<open>s.name || dflt\<close>, as text.\<close>

definition field_or :: "jsval \<Rightarrow> string \<Rightarrow> jsstring \<Rightarrow> error + jsstring" where
  "field_or s name dflt =
     (case get s (js name) of
        Inl e \<Rightarrow> Inl e
      | Inr v \<Rightarrow> if truthy v then to_string v else Inr dflt)"

text \<open>\<open>s.neutral_citation || s.citation || ""\<close>, as text.\<close>

definition display_citation :: "jsval \<Rightarrow> error + jsstring" where
  "display_citation s =
     (case citation_of s of
        Inl e \<Rightarrow> Inl e
      | Inr v \<Rightarrow> if truthy v then to_string v else Inr [])"

text \<open>
  \<open>s.name ? f(s.name) : ""\<close> and \<open>if (s.name) { f(s.name) }\<close>: what is made of a
  field that is there, and \<open>none\<close> otherwise.
\<close>

definition when_field :: "jsval \<Rightarrow> string \<Rightarrow> (jsstring \<Rightarrow> 'a) \<Rightarrow> 'a \<Rightarrow> error + 'a" where
  "when_field s name f none =
     (case get s (js name) of
        Inl e \<Rightarrow> Inl e
      | Inr v \<Rightarrow>
          if truthy v then (case to_string v of Inl e \<Rightarrow> Inl e | Inr t \<Rightarrow> Inr (f t))
          else Inr none)"

text \<open>
  The templates of \<open>renderSources\<close> for the court, the date (behind a bullet, U+2022)
  and the two links of a card, each for the text of the field.
\<close>

definition court_markup :: "jsstring \<Rightarrow> jsstring" where
  "court_markup t = js ''<span class='' @ quoted ''small'' @ js ''>'' @ t @ js ''</span>''"

definition date_markup :: "jsstring \<Rightarrow> jsstring" where
  "date_markup t =
     js ''<span class='' @ quoted ''small'' @ js ''> '' @ 8226 # 32 # t @ js ''</span>''"

definition safliiBtn :: "jsstring \<Rightarrow> jsstring" where
  "safliiBtn url =
     js ''<a href='' @ 34 # url @ 34 # js '' target='' @ quoted ''_blank'' @
     10 # js ''           class='' @ quoted ''btn btn-sm btn-primary me-2'' @
     js ''>View on SAFLII</a>''"

definition pdfBtn :: "jsstring \<Rightarrow> jsstring" where
  "pdfBtn url =
     js ''<a href='' @ 34 # url @ 34 # js '' target='' @ quoted ''_blank'' @
     10 # js ''           class='' @ quoted ''btn btn-sm btn-primary'' @
     js ''>Open PDF</a>''"

text \<open>
  The template that \<open>renderSources\<close> assigns to \<open>card.innerHTML\<close>, for the values
  interpolated into it: the number of the badge, the case name, the citation, the markup
  of court and date, the summary, and the markup of the two links.
\<close>

definition card_innerHTML ::
  "jsstring \<Rightarrow> jsstring \<Rightarrow> jsstring \<Rightarrow> jsstring \<Rightarrow> jsstring \<Rightarrow> jsstring \<Rightarrow> jsstring \<Rightarrow>
   jsstring \<Rightarrow> jsstring" where
  "card_innerHTML n caseName citation court date summary saflii pdf =
     10 # js ''      <div class='' @ quoted ''card-body p-3'' @ js ''>'' @
     10 # js ''        <div class='' @ quoted ''d-flex align-items-start mb-1'' @ js ''>'' @
     10 # js ''          <span class='' @ quoted ''badge rounded-pill bg-info me-2'' @
       js ''>['' @ n @ js '']</span>'' @
     10 # js ''          <div>'' @
     10 # js ''            <strong>'' @ caseName @ js ''</strong><br>'' @
     10 # js ''            <span class='' @ quoted ''small'' @ js ''>'' @ citation @
       js ''</span><br>'' @
     10 # js ''            '' @ court @ date @
     10 # js ''          </div>'' @
     10 # js ''        </div>'' @
     10 # js ''        <p class='' @ quoted ''small mt-2 text-body-secondary'' @ js ''>'' @
       summary @ js ''</p>'' @
     10 # 10 # js ''        <div class='' @ quoted ''mt-2 d-flex flex-wrap gap-2'' @ js ''>'' @
     10 # js ''          '' @ saflii @
     10 # js ''          '' @ pdf @
     10 # js ''        </div>'' @
     10 # js ''      </div>'' @
     10 # js ''    ''"

text \<open>The card that \<open>renderSources\<close> makes for the Source at position \<open>index\<close>.\<close>

definition card :: "nat \<Rightarrow> jsval \<Rightarrow> error + item" where
  "card index s =
     and_then (field_or s ''case_name'' (js ''Unknown Case'')) (\<lambda>caseName.
     and_then (display_citation s) (\<lambda>citation.
     and_then (when_field s ''court'' court_markup []) (\<lambda>court.
     and_then (when_field s ''judgment_date'' date_markup []) (\<lambda>date.
     and_then (when_field s ''saflii_url'' safliiBtn []) (\<lambda>saflii.
     and_then (when_field s ''pdf_url'' pdfBtn []) (\<lambda>pdf.
     and_then (field_or s ''summary'' []) (\<lambda>summary.
     Inr (Created (js ''div'') [(js ''className'', js ''card mb-2 shadow-sm border-0'')]
            (card_innerHTML (decimal (index + 1)) caseName citation court date summary
               saflii pdf)))))))))"

text \<open>
  The \<open>forEach\<close> of \<open>renderSources\<close>: the cards appended to the list, and the error
  that stopped it, if one did.
\<close>

fun cards :: "nat \<Rightarrow> jsval list \<Rightarrow> item list \<times> error option" where
  "cards index [] = ([], None)"
| "cards index (s # ss) =
     (case card index s of
        Inl e \<Rightarrow> ([], Some e)
      | Inr c \<Rightarrow> (case cards (Suc index) ss of (cs, r) \<Rightarrow> (c # cs, r)))"

definition renderSources :: "jsval \<Rightarrow> item list \<times> error option" where
  "renderSources srcs =
     (if \<not> truthy srcs \<or> length_is_0 srcs
      then ([Markup (js ''<p class='' @ quoted ''text-secondary-emphasis'' @
               js ''>No sources yet.</p>'')], None)
      else
        (case srcs of
           JArr ss \<Rightarrow> cards 0 ss
         | _ \<Rightarrow> ([], Some TypeError)))"

subsection \<open>Source modal\<close>

text \<open>
  The modal is filled through \<open>textContent\<close> and \<open>createElement\<close>: its title, meta
  line and body are text, its links are elements.
\<close>

definition link :: "string \<Rightarrow> string \<Rightarrow> jsstring \<Rightarrow> html" where
  "link c label url =
     El (js ''a'') [(js ''href'', url), (js ''target'', js ''_blank''), (js ''class'', js c)]
       [Text (js label)]"

record modal =
  m_title :: jsstring
  m_meta :: jsstring
  m_body :: jsstring
  m_links :: "html list"
  m_shown :: bool

text \<open>\<open>initSourceModal\<close> makes the modal of the page, with nothing in it yet.\<close>

definition initSourceModal :: modal where
  "initSourceModal = \<lparr>m_title = [], m_meta = [], m_body = [], m_links = [], m_shown = False\<rparr>"

text \<open>The values pushed on \<open>metaParts\<close>: those of citation, court and date that are there.\<close>

definition metaParts :: "jsval \<Rightarrow> jsval \<Rightarrow> jsval \<Rightarrow> jsval list" where
  "metaParts citation court date = filter truthy [citation, court, date]"

text \<open>
  \<open>openSourceModal\<close>, on the modal handle (\<open>None\<close> before the first call). It
  returns the modal as the call leaves it and the error that ended the call, if one did.
\<close>

definition openSourceModal :: "jsval \<Rightarrow> modal option \<Rightarrow> modal \<times> error option" where
  "openSourceModal source handle =
     (let m = (case handle of None \<Rightarrow> initSourceModal | Some m \<Rightarrow> m) in
      or_stop m (get source (js ''case_name'')) (\<lambda>cn.
      or_stop m (citation_of source) (\<lambda>ci.
      or_stop m (get source (js ''court'')) (\<lambda>co.
      or_stop m (get source (js ''judgment_date'')) (\<lambda>jd.
      or_stop m (get source (js ''summary'')) (\<lambda>su.
      let caseName = js_or cn (JStr (js ''Case details''));
          citation = js_or ci (JStr []);
          court = js_or co (JStr []);
          date = js_or jd (JStr []);
          summary = js_or su (JStr (js ''No summary available for this source.''))
      in
      or_stop m (to_string caseName) (\<lambda>t.
      let m1 = m\<lparr>m_title := t\<rparr> in
      or_stop m1 (sequence (map to_string (metaParts citation court date))) (\<lambda>parts.
      let m2 = m1\<lparr>m_meta := join_with [32, 8226, 32] parts\<rparr> in
      or_stop m2 (to_string summary) (\<lambda>b.
      let m3 = m2\<lparr>m_body := b, m_links := []\<rparr> in
      or_stop m3 (when_field source ''saflii_url''
                    (\<lambda>url. [link ''btn btn-sm btn-primary'' ''View on SAFLII'' url]) []) (\<lambda>a1.
      let m4 = m3\<lparr>m_links := a1\<rparr> in
      or_stop m4 (when_field source ''pdf_url''
                    (\<lambda>url. [link ''btn btn-sm btn-primary'' ''Open PDF'' url]) []) (\<lambda>a2.
      (m4\<lparr>m_links := a1 @ a2, m_shown := True\<rparr>, None))))))))))))"

section \<open>The page\<close>

text \<open>
  What the script does not hold itself: the Markdown renderer \<open>marked.parse\<close>, the
  browser's reading of a bubble's markup (the \<open>.citation-link\<close> buttons found in it,
  each by its \<open>data-source-index\<close> attribute, \<open>None\<close> when the button has none).
\<close>

record env =
  marked_parse :: "jsval \<Rightarrow> error + jsstring"
  citation_links :: "jsstring \<Rightarrow> jsstring option list"

text \<open>
  A child of the message list: the welcome view, a user bubble with its markup, or an
  assistant bubble with its markup and, for every citation button in it, the attribute of
  the button and the Source its click handler opens (\<open>None\<close>: no handler).
\<close>

datatype message =
    EmptyState
  | UserMsg jsstring
  | BotMsg jsstring "(jsstring option \<times> jsval option) list"

text \<open>
  The state of the page: the elements the script writes to, its variables
  \<open>emptyState\<close>, \<open>chatHistory\<close>, \<open>isThinking\<close> and the modal handle, the errors
  logged, and the requests sent to \<open>/ask\<close> that have not been answered yet.
  \<open>centered\<close> is the class \<open>center-content\<close> of the content element. The scroll
  position of the message list is not part of the state.
\<close>

record state =
  messages :: "message list"
  emptyState :: bool
  centered :: bool
  chatHistory :: "exchange list"
  isThinking :: bool
  queryInput :: jsstring
  sendBtn_disabled :: bool
  loading_shown :: bool
  historyList :: "item list"
  sourcesList :: "item list"
  sourceModal :: "modal option"
  console :: "error list"
  outstanding :: "jsstring list"

definition hideEmptyState :: "state \<Rightarrow> state" where
  "hideEmptyState s =
     (if emptyState s
      then s\<lparr>messages := filter (\<lambda>m. m \<noteq> EmptyState) (messages s),
             emptyState := False, centered := False\<rparr>
      else s)"

definition addEmptyState :: "state \<Rightarrow> state" where
  "addEmptyState s = s\<lparr>messages := [EmptyState], emptyState := True, centered := True\<rparr>"

definition updateSendState :: "state \<Rightarrow> state" where
  "updateSendState s =
     (let trimmed = trim (queryInput s);
          isEmpty = (length trimmed = 0)
      in s\<lparr>sendBtn_disabled := (isEmpty \<or> isThinking s)\<rparr>)"

definition setThinking :: "bool \<Rightarrow> state \<Rightarrow> state" where
  "setThinking on s = updateSendState (s\<lparr>isThinking := on, loading_shown := on\<rparr>)"

definition addUserMessage :: "jsstring \<Rightarrow> state \<Rightarrow> state" where
  "addUserMessage txt s =
     (let s1 = hideEmptyState s in
      s1\<lparr>messages := messages s1 @ [UserMsg (replace_all txt [One (Lit 10)] (js ''<br>''))]\<rparr>)"

subsection \<open>Citation buttons of an assistant bubble\<close>

definition digits_value :: "jsstring \<Rightarrow> nat" where
  "digits_value ds = foldl (\<lambda>acc d. 10 * acc + (d - 48)) 0 ds"

text \<open>
  \<open>parseInt(str, 10)\<close>: leading white space and a sign are passed over, the digits
  that follow are the number, and \<open>None\<close> is \<open>NaN\<close>.
\<close>

definition parseInt10 :: "jsstring \<Rightarrow> int option" where
  "parseInt10 str =
     (let t = dropWhile is_space str;
          neg = (t \<noteq> [] \<and> hd t = 45);
          u = (if t \<noteq> [] \<and> (hd t = 45 \<or> hd t = 43) then tl t else t);
          ds = takeWhile is_digit u
      in if ds = [] then None
         else Some (if neg then - int (digits_value ds) else int (digits_value ds)))"

text \<open>\<open>parseInt(btn.dataset.sourceIndex, 10)\<close>, the attribute being \<open>undefined\<close> when absent.\<close>

definition parse_index :: "jsstring option \<Rightarrow> int option" where
  "parse_index a = parseInt10 (case a of None \<Rightarrow> js ''undefined'' | Some v \<Rightarrow> v)"

text \<open>
  The Source a citation button is wired to:
  \<open>!Number.isNaN(idx) && sourcesForMessage[idx]\<close>.
\<close>

definition wired :: "jsval \<Rightarrow> jsstring option \<Rightarrow> jsval option" where
  "wired sourcesForMessage a =
     (case parse_index a of
        None \<Rightarrow> None
      | Some idx \<Rightarrow>
          (case at_index sourcesForMessage idx of
             Inl e \<Rightarrow> None
           | Inr v \<Rightarrow> if truthy v then Some v else None))"

text \<open>\<open>sourcesForMessage && sourcesForMessage.length\<close>\<close>

definition has_sources :: "jsval \<Rightarrow> bool" where
  "has_sources v =
     (truthy v \<and> (case get v (js ''length'') of Inl e \<Rightarrow> False | Inr l \<Rightarrow> truthy l))"

definition addBotMessage :: "env \<Rightarrow> jsstring \<Rightarrow> jsval \<Rightarrow> state \<Rightarrow> state" where
  "addBotMessage ev markup sourcesForMessage s =
     (let s1 = hideEmptyState s;
          citationButtons = citation_links ev markup;
          handlers =
            (if has_sources sourcesForMessage
             then map (\<lambda>a. (a, wired sourcesForMessage a)) citationButtons
             else map (\<lambda>a. (a, None)) citationButtons)
      in s1\<lparr>messages := messages s1 @ [BotMsg markup handlers]\<rparr>)"

text \<open>
  A click on citation button \<open>j\<close> of message \<open>i\<close>: its handler, if it has one, opens
  the modal; an error thrown there is reported on the console.
\<close>

definition click_citation :: "nat \<Rightarrow> nat \<Rightarrow> state \<Rightarrow> state" where
  "click_citation i j s =
     (if i < length (messages s) then
        (case messages s ! i of
           BotMsg markup handlers \<Rightarrow>
             (if j < length handlers then
                (case snd (handlers ! j) of
                   None \<Rightarrow> s
                 | Some source \<Rightarrow>
                     (case openSourceModal source (sourceModal s) of
                        (m, None) \<Rightarrow> s\<lparr>sourceModal := Some m\<rparr>
                      | (m, Some e) \<Rightarrow> s\<lparr>sourceModal := Some m, console := console s @ [e]\<rparr>))
              else s)
         | _ \<Rightarrow> s)
      else s)"

subsection \<open>Reset\<close>

definition resetConversation :: "state \<Rightarrow> state" where
  "resetConversation s =
     (let s1 = addEmptyState s;
          s2 = s1\<lparr>historyList := renderHistory (chatHistory s1)\<rparr>;
          s3 = s2\<lparr>sourcesList := fst (renderSources (JArr []))\<rparr>;
          s4 = s3\<lparr>queryInput := []\<rparr>;
          s5 = setThinking False s4
      in updateSendState s5)"

subsection \<open>Sending\<close>

text \<open>
  \<open>sendMessage\<close> up to its first \<open>await\<close>: the gate, the user bubble, and the
  request to \<open>/ask\<close>, which joins the outstanding ones.
\<close>

definition sendMessage :: "state \<Rightarrow> state" where
  "sendMessage s =
     (let qry = trim (queryInput s) in
      if qry = [] \<or> isThinking s then s
      else
        (let s1 = setThinking True s;
             s2 = addUserMessage qry s1;
             s3 = s2\<lparr>queryInput := []\<rparr>;
             s4 = updateSendState s3
         in s4\<lparr>outstanding := outstanding s4 @ [qry]\<rparr>))"

text \<open>
  What comes back: \<open>fetch\<close> rejected, a body that is not JSON (whatever the status),
  a parsed body that came with a status of success, or a parsed body that came with an
  HTTP error status.
\<close>

datatype response = NetworkError | NotJson | Json jsval | ErrorStatus nat jsval

text \<open>
  \<open>await fetch(...)\<close> and \<open>await res.json()\<close>. The script reads neither
  \<open>res.ok\<close> nor \<open>res.status\<close>.
\<close>

definition awaited :: "response \<Rightarrow> error + jsval" where
  "awaited resp =
     (case resp of
        NetworkError \<Rightarrow> Inl TypeError
      | NotJson \<Rightarrow> Inl SyntaxError
      | Json data \<Rightarrow> Inr data
      | ErrorStatus status data \<Rightarrow> Inr data)"

text \<open>
  The \<open>try\<close> block of \<open>sendMessage\<close>, for the request that carried \<open>qry\<close>, with
  \<open>now\<close> the time string of the moment: the state where the block ends and the error
  that ended it, if one did.
\<close>

definition try_block :: "env \<Rightarrow> jsstring \<Rightarrow> jsstring \<Rightarrow> response \<Rightarrow> state \<Rightarrow> state \<times> error option" where
  "try_block ev now qry resp s =
     or_stop s (awaited resp) (\<lambda>data.
     or_stop s (get data (js ''sources'')) (\<lambda>sv.
     or_stop s (get data (js ''answer'')) (\<lambda>av.
     let srcs = js_or sv (JArr []);
         rawAnswer = js_or av (JStr [])
     in
     or_stop s (applyInlineCitations rawAnswer srcs) (\<lambda>answerWithCitations.
     or_stop s (marked_parse ev answerWithCitations) (\<lambda>htmlAnswer.
     let s1 = addBotMessage ev htmlAnswer srcs s;
         s2 = s1\<lparr>chatHistory := chatHistory s1 @
                [\<lparr>query = qry, answer = rawAnswer, sources = srcs, time = now\<rparr>]\<rparr>;
         s3 = s2\<lparr>historyList := renderHistory (chatHistory s2)\<rparr>
     in (s3\<lparr>sourcesList := fst (renderSources srcs)\<rparr>, snd (renderSources srcs)))))))"

definition error_markup :: jsstring where
  "error_markup =
     js ''<span class='' @ 34 # js ''text-danger'' @ 34 # js ''>'' @ 9888 # 65039 #
     js '' Error connecting to server. Please try again.</span>''"

text \<open>\<open>sendMessage\<close> from the answer on: \<open>try\<close>, \<open>catch\<close> and \<open>finally\<close>.\<close>

definition sendMessage_resume :: "env \<Rightarrow> jsstring \<Rightarrow> jsstring \<Rightarrow> response \<Rightarrow> state \<Rightarrow> state" where
  "sendMessage_resume ev now qry resp s =
     (case try_block ev now qry resp s of
        (s1, None) \<Rightarrow> setThinking False s1
      | (s1, Some err) \<Rightarrow>
          setThinking False
            (addBotMessage ev error_markup JNull (s1\<lparr>console := console s1 @ [err]\<rparr>)))"

subsection \<open>Events\<close>

text \<open>
  What happens on the page: the user edits the input, submits (the form, the Enter key,
  or an example question after it was put in the input), starts a new conversation, or
  the answer to outstanding request \<open>k\<close> arrives.
\<close>

datatype event =
    Input jsstring
  | Submit
  | NewConversation
  | Response nat response jsstring

definition step :: "env \<Rightarrow> event \<Rightarrow> state \<Rightarrow> state" where
  "step ev e s =
     (case e of
        Input v \<Rightarrow> updateSendState (s\<lparr>queryInput := v\<rparr>)
      | Submit \<Rightarrow> sendMessage s
      | NewConversation \<Rightarrow> resetConversation s
      | Response k resp now \<Rightarrow>
          if k < length (outstanding s)
          then sendMessage_resume ev now (outstanding s ! k) resp
                 (s\<lparr>outstanding := take k (outstanding s) @ drop (Suc k) (outstanding s)\<rparr>)
          else s)"

fun run :: "env \<Rightarrow> event list \<Rightarrow> state \<Rightarrow> state" where
  "run ev [] s = s"
| "run ev (e # es) s = run ev es (step ev e s)"

text \<open>No new conversation is started while a request is outstanding.\<close>

fun calm :: "env \<Rightarrow> event list \<Rightarrow> state \<Rightarrow> bool" where
  "calm ev [] s = True"
| "calm ev (e # es) s =
     ((e = NewConversation \<longrightarrow> outstanding s = []) \<and> calm ev es (step ev e s))"

text \<open>The page as it is loaded, with the welcome view and nothing asked yet.\<close>

definition loaded :: state where
  "loaded =
     \<lparr>messages = [EmptyState], emptyState = True, centered = True, chatHistory = [],
      isThinking = False, queryInput = [], sendBtn_disabled = True, loading_shown = False,
      historyList = [], sourcesList = [], sourceModal = None, console = [],
      outstanding = []\<rparr>"

text \<open>
  A Markdown renderer and a markup reader to run examples with: the renderer hands a
  string back as it is and refuses everything else, the reader finds no citation button.
\<close>

definition plain :: env where
  "plain =
     \<lparr>marked_parse = (\<lambda>v. case v of JStr t \<Rightarrow> Inr t | _ \<Rightarrow> Inl TypeError),
      citation_links = (\<lambda>markup. [])\<rparr>"

section \<open>Observations\<close>

text \<open>
  At most one request is outstanding, and while one is, the in-flight flag is set.
\<close>

definition one_in_flight :: "state \<Rightarrow> bool" where
  "one_in_flight s \<longleftrightarrow>
     length (outstanding s) \<le> 1 \<and> (outstanding s \<noteq> [] \<longrightarrow> isThinking s)"

text \<open>The citation buttons of a message, each with what its click handler opens.\<close>

definition handlers :: "message \<Rightarrow> (jsstring option \<times> jsval option) list" where
  "handlers m = (case m of BotMsg markup hs \<Rightarrow> hs | _ \<Rightarrow> [])"

text \<open>A page whose assistant bubbles all show two citation buttons, for indices 0 and 7.\<close>

definition two_buttons :: env where
  "two_buttons =
     \<lparr>marked_parse = (\<lambda>v. case v of JStr t \<Rightarrow> Inr t | _ \<Rightarrow> Inl TypeError),
      citation_links = (\<lambda>markup. [Some (js ''0''), Some (js ''7'')])\<rparr>"

text \<open>A field of a Source as the data model has it: absent, \<open>null\<close> or a string.\<close>

definition optional_string :: "jsval \<Rightarrow> bool" where
  "optional_string v = (case v of JUndefined \<Rightarrow> True | JNull \<Rightarrow> True | JStr t \<Rightarrow> True | _ \<Rightarrow> False)"

text \<open>The text of such a field, empty when it is not there.\<close>

definition text_of :: "jsval \<Rightarrow> jsstring" where
  "text_of v = (case v of JStr t \<Rightarrow> t | _ \<Rightarrow> [])"

text \<open>The value of a named field, \<open>undefined\<close> when it is not there.\<close>

definition field :: "jsval \<Rightarrow> string \<Rightarrow> jsval" where
  "field s name = (case get s (js name) of Inl e \<Rightarrow> JUndefined | Inr v \<Rightarrow> v)"

definition fld :: "jsval \<Rightarrow> string \<Rightarrow> jsstring" where
  "fld s name = text_of (field s name)"

text \<open>The fields of a Source that the script reads.\<close>

definition source_fields :: "string list" where
  "source_fields =
     [''case_name'', ''neutral_citation'', ''citation'', ''court'', ''judgment_date'',
      ''summary'', ''saflii_url'', ''pdf_url'']"

text \<open>A Source whose fields are all absent, \<open>null\<close> or strings.\<close>

definition well_typed :: "jsval \<Rightarrow> bool" where
  "well_typed s =
     (case s of
        JObj kvs \<Rightarrow> list_all (\<lambda>name. optional_string (field s name)) source_fields
      | _ \<Rightarrow> False)"

text \<open>The neutral citation when it is there and not empty, the plain citation otherwise.\<close>

definition chosen_citation :: "jsval \<Rightarrow> jsstring" where
  "chosen_citation s =
     (if fld s ''neutral_citation'' \<noteq> [] then fld s ''neutral_citation'' else fld s ''citation'')"

text \<open>A text that is shown when it is not empty.\<close>

definition present :: "jsstring \<Rightarrow> jsstring list" where
  "present t = (if t = [] then [] else [t])"

text \<open>A Source of which only the court is known.\<close>

definition court_only :: jsval where
  "court_only = JObj [(js ''court'', JStr (js ''CC''))]"

text \<open>The characters that \<open>escapeRegExp\<close> escapes.\<close>

definition special :: "nat \<Rightarrow> bool" where
  "special c \<longleftrightarrow> c \<in> set (js ''.*+?^${}()|[]'' @ [92])"

text \<open>The pattern inside the lookahead: white space, then a number in brackets.\<close>

definition guard :: "node list" where
  "guard = [Star Space, One (Lit 91), Plus Digit, One (Lit 93)]"

text \<open>The pattern that \<open>new RegExp\<close> reads from the source text built for a citation.\<close>

definition citation_pattern :: "jsstring \<Rightarrow> node list" where
  "citation_pattern c =
     [Opt (Lit 40), Star Space] @ map (\<lambda>x. One (Lit x)) c @ [Star Space, Opt (Lit 41), NegLook guard]"

text \<open>A Source of which only the plain citation is known.\<close>

definition cites :: "jsstring \<Rightarrow> jsval" where
  "cites c = JObj [(js ''citation'', JStr c)]"

text \<open>A Source with both citations.\<close>

definition both_citations :: jsval where
  "both_citations =
     JObj [(js ''citation'', JStr (js ''2001 (1) SA 1'')),
           (js ''neutral_citation'', JStr (js ''[2001] ZACC 1''))]"

text \<open>
  The click handler of the new-conversation button in the other copy of the script (the
  one without in-flight flag and modal): it empties \<open>chatHistory\<close> before it renders
  the history panel.
\<close>

definition newConversation_legacy :: "state \<Rightarrow> state" where
  "newConversation_legacy s =
     (let s1 = s\<lparr>chatHistory := []\<rparr>;
          s2 = s1\<lparr>historyList := renderHistory (chatHistory s1)\<rparr>;
          s3 = s2\<lparr>sourcesList :=
                 [Markup (js ''<p class='' @ quoted ''text-secondary-emphasis'' @
                    js ''>No sources returned.</p>'')]\<rparr>
      in addEmptyState s3)"

text \<open>
  The history list is up to date: once an Exchange is recorded, the list holds what
  \<open>renderHistory\<close> makes of \<open>chatHistory\<close>.
\<close>

definition panel_current :: "state \<Rightarrow> bool" where
  "panel_current s \<longleftrightarrow>
     (chatHistory s \<noteq> [] \<longrightarrow> historyList s = renderHistory (chatHistory s))"

text \<open>The markup of a child of a panel.\<close>

definition inner :: "item \<Rightarrow> jsstring" where
  "inner x = (case x of Markup m \<Rightarrow> m | Created tag props m \<Rightarrow> m)"

text \<open>
  The start tags written in a piece of markup, as the browser's tokenizer finds them in
  text: a \<open><\<close> (code unit 60) that a letter follows opens a start tag, whose name runs
  up to the next white space, \<open>/\<close> or \<open>>\<close> and is read in lower case. Every
  element that the browser makes of the markup starts at one of them, but for the
  elements that HTML adds by itself for a stray \<open></p>\<close> or \<open></br>\<close>; in
  particular, markup without the start tag of a link has no link element.
\<close>

definition is_letter :: "nat \<Rightarrow> bool" where
  "is_letter c \<longleftrightarrow> (65 \<le> c \<and> c \<le> 90) \<or> (97 \<le> c \<and> c \<le> 122)"

definition lower_case :: "nat \<Rightarrow> nat" where
  "lower_case c = (if 65 \<le> c \<and> c \<le> 90 then c + 32 else c)"

definition name_char :: "nat \<Rightarrow> bool" where
  "name_char c \<longleftrightarrow> \<not> (c = 9 \<or> c = 10 \<or> c = 12 \<or> c = 13 \<or> c = 32 \<or> c = 47 \<or> c = 62)"

fun tags :: "jsstring \<Rightarrow> jsstring list" where
  "tags [] = []"
| "tags [c] = []"
| "tags (c # d # ds) =
     (if c = 60 \<and> is_letter d
      then map lower_case (takeWhile name_char (d # ds)) # tags (d # ds)
      else tags (d # ds))"

text \<open>A Source none of whose fields holds a \<open><\<close>.\<close>

definition no_markup :: "jsval \<Rightarrow> bool" where
  "no_markup s = list_all (\<lambda>name. 60 \<notin> set (fld s name)) source_fields"

text \<open>A Source without URLs whose case name is the markup of a link.\<close>

definition link_in_name :: jsval where
  "link_in_name = JObj [(js ''case_name'', JStr (js ''<a href=x>y</a>''))]"

text \<open>
  The \<open>try\<close> block of \<open>sendMessage\<close> up to its first change to the page: the answer
  is awaited, its fields are read, and the answer text is annotated and rendered to
  HTML. The result is the error thrown there, or the source list, the raw answer and the
  HTML that the rest of the block works with.
\<close>

definition prepared :: "env \<Rightarrow> response \<Rightarrow> error + jsval \<times> jsval \<times> jsstring" where
  "prepared ev resp =
     and_then (awaited resp) (\<lambda>data.
     and_then (get data (js ''sources'')) (\<lambda>sv.
     and_then (get data (js ''answer'')) (\<lambda>av.
     let srcs = js_or sv (JArr []);
         rawAnswer = js_or av (JStr [])
     in
     and_then (applyInlineCitations rawAnswer srcs) (\<lambda>answerWithCitations.
     and_then (marked_parse ev answerWithCitations) (\<lambda>htmlAnswer.
     Inr (srcs, rawAnswer, htmlAnswer))))))"

section \<open>Properties of the page state\<close>

lemma js_simps: "js [] = []" "js (c # cs) = of_char c # js cs"
  by (simp_all add: js_def)

lemma is_space_numeral [simp]:
  "is_space (numeral k) \<longleftrightarrow>
     numeral k = (9::nat) \<or> numeral k = (10::nat) \<or> numeral k = (11::nat) \<or>
     numeral k = (12::nat) \<or> numeral k = (13::nat) \<or> numeral k = (32::nat) \<or>
     numeral k = (160::nat) \<or> numeral k = (5760::nat) \<or>
     ((8192::nat) \<le> numeral k \<and> numeral k \<le> (8202::nat)) \<or>
     numeral k = (8232::nat) \<or> numeral k = (8233::nat) \<or> numeral k = (8239::nat) \<or>
     numeral k = (8287::nat) \<or> numeral k = (12288::nat) \<or> numeral k = (65279::nat)"
  by (simp add: is_space_def)

lemma hideEmptyState_fields [simp]:
  "chatHistory (hideEmptyState s) = chatHistory s"
  "isThinking (hideEmptyState s) = isThinking s"
  "queryInput (hideEmptyState s) = queryInput s"
  "outstanding (hideEmptyState s) = outstanding s"
  "historyList (hideEmptyState s) = historyList s"
  "sourcesList (hideEmptyState s) = sourcesList s"
  by (simp_all add: hideEmptyState_def)

lemma updateSendState_fields [simp]:
  "chatHistory (updateSendState s) = chatHistory s"
  "isThinking (updateSendState s) = isThinking s"
  "queryInput (updateSendState s) = queryInput s"
  "outstanding (updateSendState s) = outstanding s"
  "messages (updateSendState s) = messages s"
  "historyList (updateSendState s) = historyList s"
  "sourcesList (updateSendState s) = sourcesList s"
  "sendBtn_disabled (updateSendState s) = (trim (queryInput s) = [] \<or> isThinking s)"
  by (simp_all add: updateSendState_def)

lemma setThinking_fields [simp]:
  "chatHistory (setThinking on s) = chatHistory s"
  "isThinking (setThinking on s) = on"
  "queryInput (setThinking on s) = queryInput s"
  "outstanding (setThinking on s) = outstanding s"
  "messages (setThinking on s) = messages s"
  "historyList (setThinking on s) = historyList s"
  "sourcesList (setThinking on s) = sourcesList s"
  "sendBtn_disabled (setThinking on s) = (trim (queryInput s) = [] \<or> on)"
  by (simp_all add: setThinking_def)

lemma addBotMessage_fields [simp]:
  "chatHistory (addBotMessage ev h v s) = chatHistory s"
  "isThinking (addBotMessage ev h v s) = isThinking s"
  "queryInput (addBotMessage ev h v s) = queryInput s"
  "outstanding (addBotMessage ev h v s) = outstanding s"
  "historyList (addBotMessage ev h v s) = historyList s"
  "sourcesList (addBotMessage ev h v s) = sourcesList s"
  by (simp_all add: addBotMessage_def Let_def)

lemma addUserMessage_fields [simp]:
  "chatHistory (addUserMessage t s) = chatHistory s"
  "isThinking (addUserMessage t s) = isThinking s"
  "queryInput (addUserMessage t s) = queryInput s"
  "outstanding (addUserMessage t s) = outstanding s"
  by (simp_all add: addUserMessage_def Let_def)

lemma resetConversation_fields:
  "chatHistory (resetConversation s) = chatHistory s"
  "historyList (resetConversation s) = renderHistory (chatHistory s)"
  "sourcesList (resetConversation s) = fst (renderSources (JArr []))"
  "queryInput (resetConversation s) = []"
  "isThinking (resetConversation s) = False"
  "outstanding (resetConversation s) = outstanding s"
  "messages (resetConversation s) = [EmptyState]"
  "sendBtn_disabled (resetConversation s) = True"
  by (simp_all add: resetConversation_def Let_def addEmptyState_def trim_def)

lemma sendMessage_fields:
  "chatHistory (sendMessage s) = chatHistory s"
  "outstanding (sendMessage s) =
     (if trim (queryInput s) = [] \<or> isThinking s then outstanding s
      else outstanding s @ [trim (queryInput s)])"
  "isThinking (sendMessage s) = (isThinking s \<or> trim (queryInput s) \<noteq> [])"
  by (auto simp add: sendMessage_def Let_def)

lemma try_block_fields:
  "isThinking (fst (try_block ev now qry resp s)) = isThinking s"
  "outstanding (fst (try_block ev now qry resp s)) = outstanding s"
  "queryInput (fst (try_block ev now qry resp s)) = queryInput s"
  by (simp_all add: try_block_def or_stop_def Let_def split: sum.splits)

lemma sendMessage_resume_fields:
  "isThinking (sendMessage_resume ev now qry resp s) = False"
  "outstanding (sendMessage_resume ev now qry resp s) = outstanding s"
  using try_block_fields[of ev now qry resp s]
  by (auto simp add: sendMessage_resume_def split: prod.splits option.splits)

lemma step_one_in_flight:
  "one_in_flight s \<Longrightarrow> (e = NewConversation \<longrightarrow> outstanding s = []) \<Longrightarrow>
   one_in_flight (step ev e s)"
  by (cases e)
     (auto simp add: one_in_flight_def step_def sendMessage_fields sendMessage_resume_fields
        resetConversation_fields)

lemma run_one_in_flight:
  "one_in_flight s \<Longrightarrow> calm ev es s \<Longrightarrow> one_in_flight (run ev es s)"
  by (induction es arbitrary: s) (auto simp add: step_one_in_flight)

lemma newConversation_legacy_fields:
  "chatHistory (newConversation_legacy s) = []"
  "historyList (newConversation_legacy s) = renderHistory []"
  by (simp_all add: newConversation_legacy_def Let_def addEmptyState_def)

text \<open>
  C2. Resetting the conversation empties the source panel and the input and clears the
  in-flight flag, as \<open>resetConversation_fields\<close> shows, but \<open>chatHistory\<close> is not
  touched, other than by the handler of the other copy
  (\<open>newConversation_legacy_fields\<close>): after one answered question and a click on the
  new-conversation button, the Exchange is still recorded and the history panel still
  lists it as query 1.
\<close>

theorem resetConversation_keeps_history:
  "chatHistory (run plain [Input (js ''a''), Submit,
       Response 0 (Json (JObj [(js ''answer'', JStr (js ''x''))])) (js ''10:00''),
       NewConversation] loaded)
     = [\<lparr>query = js ''a'', answer = JStr (js ''x''), sources = JArr [], time = js ''10:00''\<rparr>]
   \<and> historyList (run plain [Input (js ''a''), Submit,
       Response 0 (Json (JObj [(js ''answer'', JStr (js ''x''))])) (js ''10:00''),
       NewConversation] loaded)
     = [history_entry 0
          \<lparr>query = js ''a'', answer = JStr (js ''x''), sources = JArr [], time = js ''10:00''\<rparr>]"
  apply (simp add: step_def sendMessage_fields resetConversation_fields)
  apply (simp add: sendMessage_resume_def try_block_def or_stop_def awaited_def js_or_def Let_def
      applyInlineCitations_def length_is_0_def plain_def renderSources_def renderHistory_def)
  apply (simp add: sendMessage_def Let_def loaded_def updateSendState_def js_simps trim_def
      setThinking_def addUserMessage_def hideEmptyState_def)
  done

text \<open>
  C3, as stated, fails in its last part: the new-conversation button clears the
  in-flight flag while the request is still outstanding, so that a second request can be
  sent before the first is answered.
\<close>

theorem two_requests_outstanding:
  "outstanding (run plain
      [Input (js ''a''), Submit, NewConversation, Input (js ''b''), Submit] loaded)
   = [js ''a'', js ''b''] \<and>
   \<not> length (outstanding (run plain
      [Input (js ''a''), Submit, NewConversation, Input (js ''b''), Submit] loaded)) \<le> 1"
  by (simp add: step_def sendMessage_fields resetConversation_fields loaded_def js_simps trim_def)

text \<open>
  C3, amended. When the trimmed input is empty or the in-flight flag is set,
  \<open>sendMessage\<close> leaves the whole state as it is: no bubble, the conversation and the
  input unchanged, no request sent. In every run from a state without outstanding
  requests in which no new conversation is started while a request is outstanding, at
  most one request is outstanding at any time.
\<close>

theorem sendMessage_gate:
  "(trim (queryInput s) = [] \<or> isThinking s \<longrightarrow> sendMessage s = s) \<and>
   (outstanding s0 = [] \<and> calm ev es s0 \<longrightarrow> length (outstanding (run ev es s0)) \<le> 1)"
proof -
  have "outstanding s0 = [] \<Longrightarrow> calm ev es s0 \<Longrightarrow> one_in_flight (run ev es s0)"
    by (rule run_one_in_flight) (simp_all add: one_in_flight_def)
  then show ?thesis
    by (auto simp add: sendMessage_def Let_def one_in_flight_def)
qed

theorem sendMessage_gate_witness:
  "sendMessage loaded = loaded \<and>
   length (outstanding (run plain
      [NewConversation, Input (js ''a''), Submit, Submit] loaded)) \<le> 1"
  using sendMessage_gate [of loaded loaded plain
      "[NewConversation, Input (js ''a''), Submit, Submit]"]
  by (simp add: loaded_def trim_def)

section \<open>Properties of the history panel\<close>

lemma length_history_entries: "length (history_entries k h) = length h"
  by (induction h arbitrary: k) simp_all

lemma nth_history_entries:
  "i < length h \<Longrightarrow> history_entries k h ! i = history_entry (k + i) (h ! i)"
proof (induction h arbitrary: k i)
  case Nil
  then show ?case by simp
next
  case (Cons x h)
  then show ?case by (cases i) simp_all
qed

lemma digits_value_snoc: "digits_value (ds @ [d]) = 10 * digits_value ds + (d - 48)"
  by (simp add: digits_value_def)

lemma digits_value_decimal: "digits_value (decimal n) = n"
proof (induction n rule: decimal.induct)
  case (1 n)
  show ?case
  proof (cases "n < 10")
    case True
    then show ?thesis
      by (subst decimal.simps) (simp add: digits_value_def)
  next
    case False
    with 1 have "digits_value (decimal (n div 10)) = n div 10" by simp
    with False show ?thesis
      by (subst decimal.simps) (simp add: digits_value_snoc)
  qed
qed

lemma decimal_small: "n < 10 \<Longrightarrow> decimal n = [48 + n]"
  by (subst decimal.simps) simp

lemma decimal_digits: "d \<in> set (decimal n) \<Longrightarrow> is_digit d"
proof (induction n rule: decimal.induct)
  case (1 n)
  show ?case
  proof (cases "n < 10")
    case True
    with 1(2) show ?thesis
      by (subst (asm) decimal.simps) (simp add: is_digit_def)
  next
    case False
    with 1 show ?thesis
      by (subst (asm) (2) decimal.simps) (auto simp add: is_digit_def)
  qed
qed

lemma tags_other: "c \<noteq> 60 \<Longrightarrow> tags (c # xs) = tags xs"
  by (cases xs) simp_all

lemma tags_skip: "60 \<notin> set t \<Longrightarrow> tags (t @ s) = tags s"
  by (induction t) (simp_all add: tags_other)

lemma tags_open:
  "tags (60 # d # ds) =
     (if is_letter d then map lower_case (takeWhile name_char (d # ds)) # tags (d # ds)
      else tags (d # ds))"
  by simp

lemma decimal_no_lt: "60 \<notin> set (decimal n)"
  using decimal_digits [of 60 n] by (auto simp add: is_digit_def)

lemmas tags_eval = tags_other tags_open tags_skip is_letter_def lower_case_def name_char_def
  js_simps quoted_def

lemma tags_history_entry:
  "60 \<notin> set (query x) \<Longrightarrow> 60 \<notin> set (time x) \<Longrightarrow>
   tags (inner (history_entry i x)) = [js ''strong'', js ''div'', js ''div'']"
proof -
  assume q: "60 \<notin> set (query x)" and t: "60 \<notin> set (time x)"
  from q have s: "60 \<notin> set (snippet (query x))"
    by (auto simp add: snippet_def dest: in_set_takeD)
  show ?thesis
    using s t by (simp add: history_entry_def inner_def tags_eval decimal_no_lt del: tags.simps(3))
qed

lemma try_block_history:
  "try_block ev now qry resp s = (s', r) \<Longrightarrow>
   s' = s \<or> (chatHistory s' \<noteq> [] \<and> historyList s' = renderHistory (chatHistory s'))"
  by (auto simp add: try_block_def or_stop_def Let_def split: sum.splits)

lemma sendMessage_resume_history:
  "panel_current s \<Longrightarrow> panel_current (sendMessage_resume ev now qry resp s)"
proof -
  assume p: "panel_current s"
  obtain s' r where t: "try_block ev now qry resp s = (s', r)"
    by (cases "try_block ev now qry resp s")
  from try_block_history [OF t] p have "panel_current s'"
    by (auto simp add: panel_current_def)
  with t show ?thesis
    by (cases r) (simp_all add: sendMessage_resume_def panel_current_def)
qed

lemma step_history: "panel_current s \<Longrightarrow> panel_current (step ev e s)"
proof (cases e)
  case (Input v)
  assume "panel_current s"
  with Input show ?thesis
    by (simp add: step_def panel_current_def)
next
  case Submit
  assume "panel_current s"
  with Submit show ?thesis
    by (simp add: step_def panel_current_def sendMessage_def Let_def addUserMessage_def
        hideEmptyState_def)
next
  case NewConversation
  then show ?thesis
    by (simp add: step_def panel_current_def resetConversation_fields)
next
  case (Response k resp now)
  assume p: "panel_current s"
  then have "panel_current (s\<lparr>outstanding := take k (outstanding s) @ drop (Suc k) (outstanding s)\<rparr>)"
    by (simp add: panel_current_def)
  with Response p show ?thesis
    by (simp add: step_def sendMessage_resume_history)
qed

lemma run_history: "panel_current s \<Longrightarrow> panel_current (run ev es s)"
  by (induction es arbitrary: s) (simp_all add: step_history)

lemma loaded_history: "panel_current loaded"
  by (simp add: panel_current_def loaded_def)

text \<open>
  C8, as stated, fails for a query that holds markup: the preview is written into the
  markup of the entry as it is, not escaped. After the question \<open>if a<b then c\<close> the
  entry of the history panel has, behind the label and the element of the preview, the
  start tag of a \<open>b\<close> element that begins inside the preview, so that the panel does
  not show the query as its preview.
\<close>

theorem markup_in_query:
  "historyList (run plain [Input (js ''if a<b then c''), Submit,
       Response 0 (Json (JObj [(js ''answer'', JStr (js ''x''))])) (js ''10:00'')] loaded) =
     [Created (js ''button'')
       [(js ''type'', js ''button''),
        (js ''className'', js ''list-group-item list-group-item-action small text-start'')]
       (10 # js ''      <strong>Query #1</strong>'' @
        10 # js ''      <div class='' @ quoted ''text-secondary-emphasis'' @
          js ''>if a<b then c</div>'' @
        10 # js ''      <div class='' @ quoted ''text-muted small'' @ js ''>10:00</div>'' @
        10 # js ''    '')] \<and>
   map (tags \<circ> inner) (historyList (run plain [Input (js ''if a<b then c''), Submit,
       Response 0 (Json (JObj [(js ''answer'', JStr (js ''x''))])) (js ''10:00'')] loaded)) =
     [[js ''strong'', js ''div'', js ''b'', js ''div'']]"
proof -
  have h: "historyList (run plain [Input (js ''if a<b then c''), Submit,
       Response 0 (Json (JObj [(js ''answer'', JStr (js ''x''))])) (js ''10:00'')] loaded) =
     [history_entry 0 \<lparr>query = js ''if a<b then c'', answer = JStr (js ''x''),
        sources = JArr [], time = js ''10:00''\<rparr>]"
    apply (simp add: step_def sendMessage_fields)
    apply (simp add: sendMessage_resume_def try_block_def or_stop_def awaited_def js_or_def Let_def
      applyInlineCitations_def length_is_0_def plain_def renderSources_def renderHistory_def)
    apply (simp add: sendMessage_def Let_def loaded_def updateSendState_def js_simps trim_def
      setThinking_def addUserMessage_def hideEmptyState_def)
    done
  show ?thesis
    unfolding h
    by (simp add: history_entry_def snippet_def decimal_small inner_def tags_eval
        del: tags.simps(3))
qed

text \<open>
  C8, amended. In every state that the page reaches from its loaded state, once an
  Exchange is recorded, the history list is what \<open>renderHistory\<close> makes of
  \<open>chatHistory\<close>. That is the placeholder for an empty conversation. Otherwise it
  has one entry per Exchange, in the order of \<open>chatHistory\<close>: entry \<open>i\<close> (counted
  from 0) is that of Exchange \<open>i\<close>. The markup of an entry is the label \<open>Query #\<close>
  with the decimal digits of \<open>i + 1\<close>, the preview and the recorded time. The preview
  written there is the whole query when that has at most 60 code units, and its first 60
  code units followed by the ellipsis U+2026 otherwise. Query and time are written as
  they are: when neither holds a \<open><\<close>, the start tags of the entry are those of the
  label, the preview and the time, and no other.
\<close>

theorem renderHistory_entries:
  "(chatHistory (run ev es loaded) \<noteq> [] \<longrightarrow>
      historyList (run ev es loaded) = renderHistory (chatHistory (run ev es loaded))) \<and>
   renderHistory [] =
     [Markup (js ''<div class='' @ quoted ''p-2 text-secondary-emphasis'' @
        js ''>No questions yet.</div>'')] \<and>
   (h \<noteq> [] \<longrightarrow> length (renderHistory h) = length h \<and>
      (\<forall>i<length h. renderHistory h ! i = history_entry i (h ! i))) \<and>
   history_entry i x =
     Created (js ''button'')
       [(js ''type'', js ''button''),
        (js ''className'', js ''list-group-item list-group-item-action small text-start'')]
       (10 # js ''      <strong>Query #'' @ decimal (i + 1) @ js ''</strong>'' @
        10 # js ''      <div class='' @ quoted ''text-secondary-emphasis'' @ js ''>'' @
          (if length (query x) \<le> 60 then query x else take 60 (query x) @ [8230]) @
          js ''</div>'' @
        10 # js ''      <div class='' @ quoted ''text-muted small'' @ js ''>'' @
          time x @ js ''</div>'' @
        10 # js ''    '') \<and>
   digits_value (decimal (i + 1)) = i + 1 \<and>
   (60 \<notin> set (query x) \<and> 60 \<notin> set (time x) \<longrightarrow>
      tags (inner (history_entry i x)) = [js ''strong'', js ''div'', js ''div''])"
proof -
  have 1: "renderHistory [] =
     [Markup (js ''<div class='' @ quoted ''p-2 text-secondary-emphasis'' @
        js ''>No questions yet.</div>'')]"
    by (simp add: renderHistory_def)
  have 2: "h \<noteq> [] \<longrightarrow> length (renderHistory h) = length h \<and>
      (\<forall>i<length h. renderHistory h ! i = history_entry i (h ! i))"
    by (simp add: renderHistory_def length_history_entries nth_history_entries)
  have 3: "history_entry i x =
     Created (js ''button'')
       [(js ''type'', js ''button''),
        (js ''className'', js ''list-group-item list-group-item-action small text-start'')]
       (10 # js ''      <strong>Query #'' @ decimal (i + 1) @ js ''</strong>'' @
        10 # js ''      <div class='' @ quoted ''text-secondary-emphasis'' @ js ''>'' @
          (if length (query x) \<le> 60 then query x else take 60 (query x) @ [8230]) @
          js ''</div>'' @
        10 # js ''      <div class='' @ quoted ''text-muted small'' @ js ''>'' @
          time x @ js ''</div>'' @
        10 # js ''    '')"
    by (simp add: history_entry_def snippet_def)
  have 4: "digits_value (decimal (i + 1)) = i + 1"
    by (rule digits_value_decimal)
  have 5: "60 \<notin> set (query x) \<and> 60 \<notin> set (time x) \<longrightarrow>
      tags (inner (history_entry i x)) = [js ''strong'', js ''div'', js ''div'']"
    by (simp add: tags_history_entry)
  have 0: "chatHistory (run ev es loaded) \<noteq> [] \<longrightarrow>
      historyList (run ev es loaded) = renderHistory (chatHistory (run ev es loaded))"
    using run_history [OF loaded_history, of ev es] by (simp add: panel_current_def)
  from 0 1 2 3 4 5 show ?thesis
    by blast
qed

theorem renderHistory_entries_witness:
  "historyList (run plain [Input (js ''a''), Submit,
       Response 0 (Json (JObj [(js ''answer'', JStr (js ''x''))])) (js ''10:00'')] loaded) =
     renderHistory
       [\<lparr>query = js ''a'', answer = JStr (js ''x''), sources = JArr [], time = js ''10:00''\<rparr>] \<and>
   length (renderHistory
     [\<lparr>query = js ''a'', answer = JStr [], sources = JArr [], time = js ''10:00''\<rparr>,
      \<lparr>query = replicate 61 97, answer = JStr [], sources = JArr [], time = js ''10:01''\<rparr>]) = 2 \<and>
   renderHistory
     [\<lparr>query = js ''a'', answer = JStr [], sources = JArr [], time = js ''10:00''\<rparr>,
      \<lparr>query = replicate 61 97, answer = JStr [], sources = JArr [], time = js ''10:01''\<rparr>] ! 1 =
   Created (js ''button'')
       [(js ''type'', js ''button''),
        (js ''className'', js ''list-group-item list-group-item-action small text-start'')]
       (10 # js ''      <strong>Query #2</strong>'' @
        10 # js ''      <div class='' @ quoted ''text-secondary-emphasis'' @ js ''>'' @
          replicate 60 97 @ 8230 # js ''</div>'' @
        10 # js ''      <div class='' @ quoted ''text-muted small'' @ js ''>10:01</div>'' @
        10 # js ''    '') \<and>
   tags (inner (renderHistory
     [\<lparr>query = js ''a'', answer = JStr [], sources = JArr [], time = js ''10:00''\<rparr>,
      \<lparr>query = replicate 61 97, answer = JStr [], sources = JArr [], time = js ''10:01''\<rparr>] ! 1)) =
   [js ''strong'', js ''div'', js ''div'']"
proof -
  let ?x = "\<lparr>query = replicate 61 97, answer = JStr [], sources = JArr [], time = js ''10:01''\<rparr>"
  let ?h = "[\<lparr>query = js ''a'', answer = JStr [], sources = JArr [], time = js ''10:00''\<rparr>, ?x]"
  have q: "60 \<notin> set (query ?x) \<and> 60 \<notin> set (time ?x)"
    by (simp add: js_simps)
  have d: "decimal (Suc (Suc 0)) = js ''2''"
    by (simp add: decimal_small js_simps)
  have n: "?h \<noteq> []" "(1::nat) < length ?h"
    by simp_all
  let ?es = "[Input (js ''a''), Submit,
       Response 0 (Json (JObj [(js ''answer'', JStr (js ''x''))])) (js ''10:00'')]"
  have c: "chatHistory (run plain ?es loaded) =
     [\<lparr>query = js ''a'', answer = JStr (js ''x''), sources = JArr [], time = js ''10:00''\<rparr>]"
    apply (simp add: step_def sendMessage_fields)
    apply (simp add: sendMessage_resume_def try_block_def or_stop_def awaited_def js_or_def Let_def
      applyInlineCitations_def length_is_0_def plain_def renderSources_def renderHistory_def)
    apply (simp add: sendMessage_def Let_def loaded_def updateSendState_def js_simps trim_def
      setThinking_def addUserMessage_def hideEmptyState_def)
    done
  from renderHistory_entries [of plain ?es ?h 1 ?x] q n c have
    "historyList (run plain ?es loaded) = renderHistory (chatHistory (run plain ?es loaded))"
    "length (renderHistory ?h) = 2" "renderHistory ?h ! 1 = history_entry 1 ?x"
    "history_entry 1 ?x = Created (js ''button'')
       [(js ''type'', js ''button''),
        (js ''className'', js ''list-group-item list-group-item-action small text-start'')]
       (10 # js ''      <strong>Query #'' @ decimal (1 + 1) @ js ''</strong>'' @
        10 # js ''      <div class='' @ quoted ''text-secondary-emphasis'' @ js ''>'' @
          (if length (query ?x) \<le> 60 then query ?x else take 60 (query ?x) @ [8230]) @
          js ''</div>'' @
        10 # js ''      <div class='' @ quoted ''text-muted small'' @ js ''>'' @
          time ?x @ js ''</div>'' @
        10 # js ''    '')"
    "tags (inner (history_entry 1 ?x)) = [js ''strong'', js ''div'', js ''div'']"
    by auto
  then show ?thesis
    unfolding c by (simp add: d js_simps)
qed

section \<open>Properties of the citation buttons\<close>

lemma wired_Some:
  "wired (JArr xs) a = Some v \<Longrightarrow>
   \<exists>idx. parse_index a = Some idx \<and> 0 \<le> idx \<and> idx < int (length xs) \<and>
         v = xs ! nat idx \<and> truthy v"
  by (auto simp add: wired_def split: option.splits if_splits)

lemma wired_None:
  "parse_index a = None \<or>
   (\<exists>idx. parse_index a = Some idx \<and> (idx < 0 \<or> int (length xs) \<le> idx)) \<Longrightarrow>
   wired (JArr xs) a = None"
  by (auto simp add: wired_def split: option.splits)

lemma messages_addBotMessage:
  "messages (addBotMessage ev markup srcs s) =
     messages (hideEmptyState s) @
     [BotMsg markup
        (if has_sources srcs then map (\<lambda>a. (a, wired srcs a)) (citation_links ev markup)
         else map (\<lambda>a. (a, None)) (citation_links ev markup))]"
  by (simp add: addBotMessage_def Let_def)

lemma handlers_addBotMessage:
  "handlers (last (messages (addBotMessage ev markup srcs s))) =
     map (\<lambda>a. (a, if has_sources srcs then wired srcs a else None)) (citation_links ev markup)"
  by (simp add: messages_addBotMessage handlers_def)

lemma click_unwired:
  "messages s \<noteq> [] \<Longrightarrow> j < length (handlers (last (messages s))) \<Longrightarrow>
   snd (handlers (last (messages s)) ! j) = None \<Longrightarrow>
   click_citation (length (messages s) - 1) j s = s"
  by (cases "last (messages s)")
     (simp_all add: click_citation_def handlers_def last_conv_nth)

text \<open>
  C10. In the assistant bubble that \<open>addBotMessage\<close> appends for a source list, a
  citation button whose \<open>data-source-index\<close> does not parse as a number, or parses to
  an index outside the list, has no click handler, and a click on it leaves the page as
  it is. Every button that has a handler opens the Source at its parsed index, which is
  inside the list.
\<close>

theorem unwired_marker:
  "j < length (citation_links ev markup) \<Longrightarrow>
   parse_index (citation_links ev markup ! j) = None \<or>
   (\<exists>idx. parse_index (citation_links ev markup ! j) = Some idx \<and>
          (idx < 0 \<or> int (length xs) \<le> idx)) \<Longrightarrow>
   snd (handlers (last (messages (addBotMessage ev markup (JArr xs) s))) ! j) = None \<and>
   click_citation (length (messages (addBotMessage ev markup (JArr xs) s)) - 1) j
       (addBotMessage ev markup (JArr xs) s) =
     addBotMessage ev markup (JArr xs) s \<and>
   (\<forall>k v. k < length (citation_links ev markup) \<and>
      snd (handlers (last (messages (addBotMessage ev markup (JArr xs) s))) ! k) = Some v \<longrightarrow>
      (\<exists>idx. parse_index (citation_links ev markup ! k) = Some idx \<and> 0 \<le> idx \<and>
             idx < int (length xs) \<and> v = xs ! nat idx \<and> truthy v))"
proof -
  assume j: "j < length (citation_links ev markup)"
  assume "parse_index (citation_links ev markup ! j) = None \<or>
   (\<exists>idx. parse_index (citation_links ev markup ! j) = Some idx \<and>
          (idx < 0 \<or> int (length xs) \<le> idx))"
  then have w: "wired (JArr xs) (citation_links ev markup ! j) = None"
    by (rule wired_None)
  let ?s = "addBotMessage ev markup (JArr xs) s"
  have none: "snd (handlers (last (messages ?s)) ! j) = None"
    using j w by (simp add: handlers_addBotMessage)
  have "messages ?s \<noteq> []"
    by (simp add: messages_addBotMessage)
  moreover have "j < length (handlers (last (messages ?s)))"
    using j by (simp add: handlers_addBotMessage)
  ultimately have click: "click_citation (length (messages ?s) - 1) j ?s = ?s"
    using none by (rule click_unwired)
  have some: "\<forall>k v. k < length (citation_links ev markup) \<and>
      snd (handlers (last (messages ?s)) ! k) = Some v \<longrightarrow>
      (\<exists>idx. parse_index (citation_links ev markup ! k) = Some idx \<and> 0 \<le> idx \<and>
             idx < int (length xs) \<and> v = xs ! nat idx \<and> truthy v)"
    by (auto simp add: handlers_addBotMessage dest: wired_Some split: if_splits)
  from none click some show ?thesis
    by blast
qed

theorem unwired_marker_witness:
  "snd (handlers (last (messages
      (addBotMessage two_buttons (js ''x'') (JArr [JObj []]) loaded))) ! 1) = None \<and>
   click_citation
      (length (messages (addBotMessage two_buttons (js ''x'') (JArr [JObj []]) loaded)) - 1) 1
      (addBotMessage two_buttons (js ''x'') (JArr [JObj []]) loaded) =
     addBotMessage two_buttons (js ''x'') (JArr [JObj []]) loaded"
proof -
  have 1: "1 < length (citation_links two_buttons (js ''x''))"
    by (simp add: two_buttons_def)
  have 2: "parse_index (citation_links two_buttons (js ''x'') ! 1) = None \<or>
   (\<exists>idx. parse_index (citation_links two_buttons (js ''x'') ! 1) = Some idx \<and>
          (idx < 0 \<or> int (length [JObj []]) \<le> idx))"
    by (simp add: two_buttons_def parse_index_def parseInt10_def js_simps is_digit_def
      digits_value_def Let_def)
  from unwired_marker [OF 1 2] show ?thesis
    by blast
qed

section \<open>Properties of the source views\<close>

lemma optional_string_truthy: "optional_string v \<Longrightarrow> truthy v \<longleftrightarrow> text_of v \<noteq> []"
  by (cases v) (simp_all add: optional_string_def text_of_def)

lemma optional_string_to_string:
  "optional_string v \<Longrightarrow> truthy v \<Longrightarrow> to_string v = Inr (text_of v)"
  by (cases v) (simp_all add: optional_string_def text_of_def)

lemma well_typed_get:
  "well_typed s \<Longrightarrow> name \<in> set source_fields \<Longrightarrow>
   get s (js name) = Inr (field s name) \<and> optional_string (field s name)"
  by (cases s) (auto simp add: well_typed_def field_def list_all_iff)

lemma field_or_well_typed:
  "well_typed s \<Longrightarrow> name \<in> set source_fields \<Longrightarrow>
   field_or s name d = Inr (if fld s name = [] then d else fld s name)"
  using well_typed_get [of s name]
  by (simp add: field_or_def fld_def optional_string_truthy optional_string_to_string)

lemma when_field_well_typed:
  "well_typed s \<Longrightarrow> name \<in> set source_fields \<Longrightarrow>
   when_field s name f none = Inr (if fld s name = [] then none else f (fld s name))"
  using well_typed_get [of s name]
  by (simp add: when_field_def fld_def optional_string_truthy optional_string_to_string)

lemma citation_of_well_typed:
  "well_typed s \<Longrightarrow>
   \<exists>v. citation_of s = Inr v \<and> optional_string v \<and> text_of v = chosen_citation s"
  using well_typed_get [of s "''neutral_citation''"] well_typed_get [of s "''citation''"]
  by (simp add: citation_of_def chosen_citation_def fld_def optional_string_truthy
      source_fields_def)

lemma display_citation_well_typed:
  "well_typed s \<Longrightarrow> display_citation s = Inr (chosen_citation s)"
proof -
  assume "well_typed s"
  then obtain v where "citation_of s = Inr v" "optional_string v" "text_of v = chosen_citation s"
    using citation_of_well_typed by blast
  then show ?thesis
    by (simp add: display_citation_def optional_string_truthy optional_string_to_string)
qed

lemma js_or_optional:
  "optional_string v \<Longrightarrow> js_or v (JStr d) = JStr (if text_of v = [] then d else text_of v)"
  by (cases v) (simp_all add: optional_string_def text_of_def js_or_def)

lemma metaParts_strings:
  "metaParts (JStr a) (JStr b) (JStr c) = map JStr (filter (\<lambda>t. t \<noteq> []) [a, b, c])"
  by (simp add: metaParts_def)

lemma sequence_strings: "sequence (map (to_string \<circ> JStr) ts) = Inr ts"
  by (induction ts) simp_all

lemma openSourceModal_well_typed:
  "well_typed s \<Longrightarrow>
   openSourceModal s h =
     (\<lparr>m_title = (if fld s ''case_name'' = [] then js ''Case details'' else fld s ''case_name''),
       m_meta = join_with [32, 8226, 32]
         (filter (\<lambda>t. t \<noteq> []) [chosen_citation s, fld s ''court'', fld s ''judgment_date'']),
       m_body = (if fld s ''summary'' = [] then js ''No summary available for this source.''
                 else fld s ''summary''),
       m_links =
         (if fld s ''saflii_url'' = [] then []
          else [link ''btn btn-sm btn-primary'' ''View on SAFLII'' (fld s ''saflii_url'')]) @
         (if fld s ''pdf_url'' = [] then []
          else [link ''btn btn-sm btn-primary'' ''Open PDF'' (fld s ''pdf_url'')]),
       m_shown = True\<rparr>, None)"
proof -
  assume wt: "well_typed s"
  then obtain v where v: "citation_of s = Inr v" "optional_string v"
      "text_of v = chosen_citation s"
    using citation_of_well_typed by blast
  have g: "get s (js ''case_name'') = Inr (field s ''case_name'')"
      "get s (js ''court'') = Inr (field s ''court'')"
      "get s (js ''judgment_date'') = Inr (field s ''judgment_date'')"
      "get s (js ''summary'') = Inr (field s ''summary'')"
    using wt by (simp_all add: well_typed_get source_fields_def)
  have o: "optional_string (field s ''case_name'')"
      "optional_string (field s ''court'')"
      "optional_string (field s ''judgment_date'')"
      "optional_string (field s ''summary'')"
    using wt by (simp_all add: well_typed_get source_fields_def)
  have w: "when_field s ''saflii_url''
          (\<lambda>url. [link ''btn btn-sm btn-primary'' ''View on SAFLII'' url]) [] =
        Inr (if fld s ''saflii_url'' = [] then []
             else [link ''btn btn-sm btn-primary'' ''View on SAFLII'' (fld s ''saflii_url'')])"
      "when_field s ''pdf_url'' (\<lambda>url. [link ''btn btn-sm btn-primary'' ''Open PDF'' url]) [] =
        Inr (if fld s ''pdf_url'' = [] then []
             else [link ''btn btn-sm btn-primary'' ''Open PDF'' (fld s ''pdf_url'')])"
    using wt by (simp_all add: when_field_well_typed source_fields_def)
  show ?thesis
    unfolding openSourceModal_def Let_def or_stop_def g v(1) w
    by (simp add: js_or_optional o v metaParts_strings sequence_strings fld_def
        initSourceModal_def
        del: if_split filter.simps split del: if_split cong: if_cong split: option.split)
qed

lemma filter_present:
  "filter (\<lambda>t. t \<noteq> []) [a, b, c] = present a @ present b @ present c"
  by (simp add: present_def)

lemma court_only_well_typed: "well_typed court_only"
  by (simp add: court_only_def well_typed_def source_fields_def field_def optional_string_def
      js_simps)

lemma court_only_fields:
  "fld court_only ''case_name'' = []"
  "chosen_citation court_only = []"
  "fld court_only ''court'' = js ''CC''"
  "fld court_only ''judgment_date'' = []"
  "fld court_only ''summary'' = []"
  "fld court_only ''saflii_url'' = []"
  "fld court_only ''pdf_url'' = []"
  by (simp_all add: court_only_def chosen_citation_def fld_def field_def text_of_def js_simps)

lemma if_empty: "(if t = [] then [] else t) = t"
  by simp

lemma card_well_typed:
  "well_typed s \<Longrightarrow>
   card i s =
     Inr (Created (js ''div'') [(js ''className'', js ''card mb-2 shadow-sm border-0'')]
       (card_innerHTML (decimal (i + 1))
          (if fld s ''case_name'' = [] then js ''Unknown Case'' else fld s ''case_name'')
          (chosen_citation s)
          (if fld s ''court'' = [] then [] else court_markup (fld s ''court''))
          (if fld s ''judgment_date'' = [] then [] else date_markup (fld s ''judgment_date''))
          (fld s ''summary'')
          (if fld s ''saflii_url'' = [] then [] else safliiBtn (fld s ''saflii_url''))
          (if fld s ''pdf_url'' = [] then [] else pdfBtn (fld s ''pdf_url''))))"
  by (simp add: card_def and_then_def field_or_well_typed when_field_well_typed
      display_citation_well_typed source_fields_def if_empty
      del: if_split split del: if_split cong: if_cong)

lemma tags_pieces:
  "60 \<notin> set t \<Longrightarrow> tags (court_markup t @ rest) = js ''span'' # tags rest"
  "60 \<notin> set t \<Longrightarrow> tags (date_markup t @ rest) = js ''span'' # tags rest"
  "60 \<notin> set t \<Longrightarrow> tags (safliiBtn t @ rest) = js ''a'' # tags rest"
  "60 \<notin> set t \<Longrightarrow> tags (pdfBtn t @ rest) = js ''a'' # tags rest"
  by (simp_all add: court_markup_def date_markup_def safliiBtn_def pdfBtn_def tags_eval
      del: tags.simps(3))

lemma tags_if:
  "tags ((if b then [] else x) @ rest) = (if b then tags rest else tags (x @ rest))"
  by simp

lemma tags_card_innerHTML:
  assumes "60 \<notin> set n" "60 \<notin> set name" "60 \<notin> set cit" "60 \<notin> set co" "60 \<notin> set da"
    "60 \<notin> set su" "60 \<notin> set u1" "60 \<notin> set u2"
  shows "tags (card_innerHTML n name cit
            (if co = [] then [] else court_markup co) (if da = [] then [] else date_markup da)
            su (if u1 = [] then [] else safliiBtn u1) (if u2 = [] then [] else pdfBtn u2)) =
         [js ''div'', js ''div'', js ''span'', js ''div'', js ''strong'', js ''br'', js ''span'',
          js ''br''] @
         (if co = [] then [] else [js ''span'']) @ (if da = [] then [] else [js ''span'']) @
         [js ''p'', js ''div''] @
         (if u1 = [] then [] else [js ''a'']) @ (if u2 = [] then [] else [js ''a''])"
  using assms
  by (simp add: card_innerHTML_def tags_eval tags_if tags_pieces del: tags.simps(3))

lemma no_markup_fields:
  "no_markup s \<Longrightarrow> name \<in> set source_fields \<Longrightarrow> 60 \<notin> set (fld s name)"
  by (simp add: no_markup_def list_all_iff)

lemma no_markup_chosen: "no_markup s \<Longrightarrow> 60 \<notin> set (chosen_citation s)"
  using no_markup_fields [of s "''neutral_citation''"] no_markup_fields [of s "''citation''"]
  by (simp add: chosen_citation_def source_fields_def)

lemma tags_card:
  assumes "well_typed s" "no_markup s"
  shows "tags (inner (projr (card i s))) =
         [js ''div'', js ''div'', js ''span'', js ''div'', js ''strong'', js ''br'', js ''span'',
          js ''br''] @
         (if fld s ''court'' = [] then [] else [js ''span'']) @
         (if fld s ''judgment_date'' = [] then [] else [js ''span'']) @
         [js ''p'', js ''div''] @
         (if fld s ''saflii_url'' = [] then [] else [js ''a'']) @
         (if fld s ''pdf_url'' = [] then [] else [js ''a''])"
proof -
  have f: "60 \<notin> set (fld s ''case_name'')" "60 \<notin> set (fld s ''court'')"
      "60 \<notin> set (fld s ''judgment_date'')" "60 \<notin> set (fld s ''summary'')"
      "60 \<notin> set (fld s ''saflii_url'')" "60 \<notin> set (fld s ''pdf_url'')"
    using assms(2) by (simp_all add: no_markup_fields source_fields_def)
  have n: "60 \<notin> set (if fld s ''case_name'' = [] then js ''Unknown Case''
                      else fld s ''case_name'')"
    using f(1) by (simp add: js_simps)
  show ?thesis
    unfolding card_well_typed [OF assms(1)] sum.sel inner_def item.case
    by (rule tags_card_innerHTML [OF decimal_no_lt n no_markup_chosen [OF assms(2)] f(2-6)])
qed

lemma link_in_name_well_typed: "well_typed link_in_name"
  by (simp add: link_in_name_def well_typed_def source_fields_def field_def optional_string_def
      js_simps)

lemma link_in_name_fields:
  "fld link_in_name ''case_name'' = js ''<a href=x>y</a>''"
  "chosen_citation link_in_name = []"
  "fld link_in_name ''court'' = []"
  "fld link_in_name ''judgment_date'' = []"
  "fld link_in_name ''summary'' = []"
  "fld link_in_name ''saflii_url'' = []"
  "fld link_in_name ''pdf_url'' = []"
  by (simp_all add: link_in_name_def chosen_citation_def fld_def field_def text_of_def js_simps)

lemma court_only_no_markup: "no_markup court_only"
  by (simp add: no_markup_def source_fields_def court_only_def fld_def field_def text_of_def
      js_simps)

text \<open>
  C6, as stated, fails in two ways. For a Source of which only the court is known, the
  card shows the placeholder \<open>Unknown Case\<close> and the modal shows
  \<open>Case details\<close> and \<open>No summary available for this source.\<close> And the fields
  are written into the markup of the card as they are, not escaped: for a Source without
  URLs whose case name is the markup of a link, the markup of the card has the start tag
  of a link.
\<close>

theorem placeholders_rendered:
  "card 0 court_only =
     Inr (Created (js ''div'') [(js ''className'', js ''card mb-2 shadow-sm border-0'')]
       (card_innerHTML (js ''1'') (js ''Unknown Case'') [] (court_markup (js ''CC'')) [] [] [] [])) \<and>
   openSourceModal court_only None =
     (\<lparr>m_title = js ''Case details'', m_meta = js ''CC'',
       m_body = js ''No summary available for this source.'',
       m_links = [], m_shown = True\<rparr>, None) \<and>
   card 0 link_in_name =
     Inr (Created (js ''div'') [(js ''className'', js ''card mb-2 shadow-sm border-0'')]
       (card_innerHTML (js ''1'') (js ''<a href=x>y</a>'') [] [] [] [] [] [])) \<and>
   tags (card_innerHTML (js ''1'') (js ''<a href=x>y</a>'') [] [] [] [] [] []) =
     [js ''div'', js ''div'', js ''span'', js ''div'', js ''strong'', js ''a'', js ''br'',
      js ''span'', js ''br'', js ''p'', js ''div'']"
proof -
  have 1: "card 0 court_only =
     Inr (Created (js ''div'') [(js ''className'', js ''card mb-2 shadow-sm border-0'')]
       (card_innerHTML (js ''1'') (js ''Unknown Case'') [] (court_markup (js ''CC'')) [] [] [] []))"
    by (simp add: card_well_typed [OF court_only_well_typed] court_only_fields decimal_small
        js_simps)
  have 2: "openSourceModal court_only None =
     (\<lparr>m_title = js ''Case details'', m_meta = js ''CC'',
       m_body = js ''No summary available for this source.'',
       m_links = [], m_shown = True\<rparr>, None)"
    by (simp add: openSourceModal_well_typed [OF court_only_well_typed] court_only_fields
        js_simps)
  have 3: "card 0 link_in_name =
     Inr (Created (js ''div'') [(js ''className'', js ''card mb-2 shadow-sm border-0'')]
       (card_innerHTML (js ''1'') (js ''<a href=x>y</a>'') [] [] [] [] [] []))"
    by (simp add: card_well_typed [OF link_in_name_well_typed] link_in_name_fields decimal_small
        js_simps)
  have 4: "tags (card_innerHTML (js ''1'') (js ''<a href=x>y</a>'') [] [] [] [] [] []) =
     [js ''div'', js ''div'', js ''span'', js ''div'', js ''strong'', js ''a'', js ''br'',
      js ''span'', js ''br'', js ''p'', js ''div'']"
    by (simp add: card_innerHTML_def tags_eval del: tags.simps(3))
  from 1 2 3 4 show ?thesis
    by blast
qed

text \<open>
  C6, amended. For every Source whose fields are absent, \<open>null\<close> or strings, the card
  and the modal are made without error. The markup of the card is the template with the
  case name (\<open>Unknown Case\<close> when absent), the citation and the summary (each empty
  when absent) written into it as they are, and with the markup of the court, of the date
  and of each of the two links only when the field is there. When no field holds a
  \<open><\<close>, the start tags of the card are those of the template, with a \<open>span\<close>
  for the court and one for the date and a link for each URL only when the field is
  there: a Source with neither \<open>saflii_url\<close> nor \<open>pdf_url\<close> then has no link in
  its card. The modal shows as text the case name (\<open>Case details\<close> when absent), the
  citation, court and date that are there, joined by bullets, and the summary
  (\<open>No summary available for this source.\<close> when absent), and its link elements
  are those of the URLs that are there.
\<close>

theorem absent_fields:
  "well_typed s \<Longrightarrow>
   (\<exists>m. card i s =
       Inr (Created (js ''div'') [(js ''className'', js ''card mb-2 shadow-sm border-0'')] m) \<and>
     m = card_innerHTML (decimal (i + 1))
          (if fld s ''case_name'' = [] then js ''Unknown Case'' else fld s ''case_name'')
          (chosen_citation s)
          (if fld s ''court'' = [] then [] else court_markup (fld s ''court''))
          (if fld s ''judgment_date'' = [] then [] else date_markup (fld s ''judgment_date''))
          (fld s ''summary'')
          (if fld s ''saflii_url'' = [] then [] else safliiBtn (fld s ''saflii_url''))
          (if fld s ''pdf_url'' = [] then [] else pdfBtn (fld s ''pdf_url'')) \<and>
     (no_markup s \<longrightarrow>
        tags m =
          [js ''div'', js ''div'', js ''span'', js ''div'', js ''strong'', js ''br'',
           js ''span'', js ''br''] @
          (if fld s ''court'' = [] then [] else [js ''span'']) @
          (if fld s ''judgment_date'' = [] then [] else [js ''span'']) @
          [js ''p'', js ''div''] @
          (if fld s ''saflii_url'' = [] then [] else [js ''a'']) @
          (if fld s ''pdf_url'' = [] then [] else [js ''a'']))) \<and>
   (\<exists>m. openSourceModal s h = (m, None) \<and>
     m_title m = (if fld s ''case_name'' = [] then js ''Case details'' else fld s ''case_name'') \<and>
     m_meta m = join_with [32, 8226, 32]
         (present (chosen_citation s) @ present (fld s ''court'') @
          present (fld s ''judgment_date'')) \<and>
     m_body m = (if fld s ''summary'' = [] then js ''No summary available for this source.''
                 else fld s ''summary'') \<and>
     m_links m =
         (if fld s ''saflii_url'' = [] then []
          else [link ''btn btn-sm btn-primary'' ''View on SAFLII'' (fld s ''saflii_url'')]) @
         (if fld s ''pdf_url'' = [] then []
          else [link ''btn btn-sm btn-primary'' ''Open PDF'' (fld s ''pdf_url'')]))"
proof -
  assume wt: "well_typed s"
  let ?m = "card_innerHTML (decimal (i + 1))
          (if fld s ''case_name'' = [] then js ''Unknown Case'' else fld s ''case_name'')
          (chosen_citation s)
          (if fld s ''court'' = [] then [] else court_markup (fld s ''court''))
          (if fld s ''judgment_date'' = [] then [] else date_markup (fld s ''judgment_date''))
          (fld s ''summary'')
          (if fld s ''saflii_url'' = [] then [] else safliiBtn (fld s ''saflii_url''))
          (if fld s ''pdf_url'' = [] then [] else pdfBtn (fld s ''pdf_url''))"
  have c: "card i s =
       Inr (Created (js ''div'') [(js ''className'', js ''card mb-2 shadow-sm border-0'')] ?m)"
    using wt by (rule card_well_typed)
  then have p: "inner (projr (card i s)) = ?m"
    by (simp add: inner_def)
  have t: "no_markup s \<longrightarrow>
        tags ?m =
          [js ''div'', js ''div'', js ''span'', js ''div'', js ''strong'', js ''br'',
           js ''span'', js ''br''] @
          (if fld s ''court'' = [] then [] else [js ''span'']) @
          (if fld s ''judgment_date'' = [] then [] else [js ''span'']) @
          [js ''p'', js ''div''] @
          (if fld s ''saflii_url'' = [] then [] else [js ''a'']) @
          (if fld s ''pdf_url'' = [] then [] else [js ''a''])"
    using tags_card [OF wt, of i] unfolding p by blast
  have 1: "\<exists>m. card i s =
       Inr (Created (js ''div'') [(js ''className'', js ''card mb-2 shadow-sm border-0'')] m) \<and>
     m = ?m \<and>
     (no_markup s \<longrightarrow>
        tags m =
          [js ''div'', js ''div'', js ''span'', js ''div'', js ''strong'', js ''br'',
           js ''span'', js ''br''] @
          (if fld s ''court'' = [] then [] else [js ''span'']) @
          (if fld s ''judgment_date'' = [] then [] else [js ''span'']) @
          [js ''p'', js ''div''] @
          (if fld s ''saflii_url'' = [] then [] else [js ''a'']) @
          (if fld s ''pdf_url'' = [] then [] else [js ''a'']))"
    using c t by blast
  have 2: "\<exists>m. openSourceModal s h = (m, None) \<and>
     m_title m = (if fld s ''case_name'' = [] then js ''Case details'' else fld s ''case_name'') \<and>
     m_meta m = join_with [32, 8226, 32]
         (present (chosen_citation s) @ present (fld s ''court'') @
          present (fld s ''judgment_date'')) \<and>
     m_body m = (if fld s ''summary'' = [] then js ''No summary available for this source.''
                 else fld s ''summary'') \<and>
     m_links m =
         (if fld s ''saflii_url'' = [] then []
          else [link ''btn btn-sm btn-primary'' ''View on SAFLII'' (fld s ''saflii_url'')]) @
         (if fld s ''pdf_url'' = [] then []
          else [link ''btn btn-sm btn-primary'' ''Open PDF'' (fld s ''pdf_url'')])"
    by (simp add: openSourceModal_well_typed [OF wt] filter_present
        del: if_split filter.simps split del: if_split cong: if_cong)
  from 1 2 show ?thesis
    by (rule conjI)
qed

theorem absent_fields_witness:
  "(\<exists>m. card 0 court_only =
       Inr (Created (js ''div'') [(js ''className'', js ''card mb-2 shadow-sm border-0'')] m) \<and>
      m = card_innerHTML (js ''1'') (js ''Unknown Case'') [] (court_markup (js ''CC'')) [] [] [] [] \<and>
      tags m = [js ''div'', js ''div'', js ''span'', js ''div'', js ''strong'', js ''br'',
        js ''span'', js ''br'', js ''span'', js ''p'', js ''div'']) \<and>
   (\<exists>m. openSourceModal court_only None = (m, None) \<and>
      m_title m = js ''Case details'' \<and> m_meta m = js ''CC'' \<and>
      m_body m = js ''No summary available for this source.'' \<and> m_links m = [])"
  using absent_fields [OF court_only_well_typed, of 0 None, unfolded court_only_fields]
    court_only_no_markup
  by (simp add: decimal_small js_simps present_def)

section \<open>Properties of the response handling\<close>

lemma names_differ: "js ''answer'' \<noteq> js ''sources''"
  by (simp add: js_simps)

lemma try_block_default_answer:
  "\<not> truthy (field (JObj kvs) ''answer'') \<Longrightarrow>
   try_block ev now qry (Json (JObj kvs)) s =
   try_block ev now qry (Json (JObj ((js ''answer'', JStr []) # kvs))) s"
  using names_differ
  by (simp add: try_block_def or_stop_def awaited_def field_def js_or_def Let_def)

lemma try_block_default_sources:
  "\<not> truthy (field (JObj kvs) ''sources'') \<Longrightarrow>
   try_block ev now qry (Json (JObj kvs)) s =
   try_block ev now qry (Json (JObj ((js ''sources'', JArr []) # kvs))) s"
  using names_differ
  by (simp add: try_block_def or_stop_def awaited_def field_def js_or_def Let_def)

text \<open>
  C7, as stated, fails for a malformed field that is truthy: with the number 5 for
  \<open>sources\<close> the \<open>forEach\<close> of the annotation throws, the page shows the error
  bubble and records no Exchange, whereas for the empty array it shows the answer and
  records the Exchange.
\<close>

theorem malformed_sources_rejected:
  "chatHistory (sendMessage_resume plain (js ''10:00'') (js ''q'')
      (Json (JObj [(js ''answer'', JStr (js ''x'')), (js ''sources'', JNum 5)])) loaded) = [] \<and>
   messages (sendMessage_resume plain (js ''10:00'') (js ''q'')
      (Json (JObj [(js ''answer'', JStr (js ''x'')), (js ''sources'', JNum 5)])) loaded)
     = [BotMsg error_markup []] \<and>
   chatHistory (sendMessage_resume plain (js ''10:00'') (js ''q'')
      (Json (JObj [(js ''answer'', JStr (js ''x'')), (js ''sources'', JArr [])])) loaded)
     = [\<lparr>query = js ''q'', answer = JStr (js ''x''), sources = JArr [], time = js ''10:00''\<rparr>] \<and>
   messages (sendMessage_resume plain (js ''10:00'') (js ''q'')
      (Json (JObj [(js ''answer'', JStr (js ''x'')), (js ''sources'', JArr [])])) loaded)
     = [BotMsg (js ''x'') []]"
  by (simp add: sendMessage_resume_def try_block_def or_stop_def awaited_def js_or_def Let_def
      applyInlineCitations_def length_is_0_def plain_def renderSources_def
      messages_addBotMessage hideEmptyState_def loaded_def has_sources_def js_simps)

text \<open>
  C7, amended. An \<open>answer\<close> that is absent or falsy (\<open>null\<close>, \<open>false\<close>,
  \<open>0\<close>, the empty string) is treated exactly as the empty string, and a
  \<open>sources\<close> that is absent or falsy exactly as the empty array: the page ends in the
  same state as for the response that carries the empty string, or the empty array, in
  that field.
\<close>

theorem falsy_fields_default:
  "(\<not> truthy (field (JObj kvs) ''answer'') \<longrightarrow>
      sendMessage_resume ev now qry (Json (JObj kvs)) s =
      sendMessage_resume ev now qry (Json (JObj ((js ''answer'', JStr []) # kvs))) s) \<and>
   (\<not> truthy (field (JObj kvs) ''sources'') \<longrightarrow>
      sendMessage_resume ev now qry (Json (JObj kvs)) s =
      sendMessage_resume ev now qry (Json (JObj ((js ''sources'', JArr []) # kvs))) s)"
  by (simp add: sendMessage_resume_def try_block_default_answer [symmetric]
      try_block_default_sources [symmetric])

theorem falsy_fields_default_witness:
  "sendMessage_resume plain (js ''10:00'') (js ''q'') (Json (JObj [])) loaded =
   sendMessage_resume plain (js ''10:00'') (js ''q'') (Json (JObj [(js ''answer'', JStr [])])) loaded \<and>
   sendMessage_resume plain (js ''10:00'') (js ''q'') (Json (JObj [])) loaded =
   sendMessage_resume plain (js ''10:00'') (js ''q'') (Json (JObj [(js ''sources'', JArr [])])) loaded"
proof -
  have "\<not> truthy (field (JObj []) ''answer'')" "\<not> truthy (field (JObj []) ''sources'')"
    by (simp_all add: field_def)
  with falsy_fields_default [of "[]" plain "js ''10:00''" "js ''q''" loaded] show ?thesis
    by blast
qed

lemma try_block_prepared:
  "prepared ev resp = Inl e \<Longrightarrow> try_block ev now qry resp s = (s, Some e)"
  by (auto simp add: prepared_def try_block_def and_then_def or_stop_def Let_def
      split: sum.splits)

text \<open>
  C4, as stated, fails for failures that the script does not notice in time. The status
  of the response is never read: an answer with the HTTP error status 500 and a JSON body
  is handled as an answer, so that the page shows an (empty) assistant bubble and no
  error bubble, and records an Exchange. And an error thrown after the Exchange was
  recorded leaves it there: with the number 5 for \<open>sources\<close> and an empty answer,
  \<open>renderSources\<close> throws, and the page shows the assistant bubble and the error
  bubble and keeps the Exchange.
\<close>

theorem failure_after_answer:
  "messages (run plain [Input (js ''q''), Submit,
      Response 0 (ErrorStatus 500 (JObj [(js ''detail'', JStr (js ''down''))])) (js ''10:00'')]
      loaded) = [UserMsg (js ''q''), BotMsg [] []] \<and>
   chatHistory (run plain [Input (js ''q''), Submit,
      Response 0 (ErrorStatus 500 (JObj [(js ''detail'', JStr (js ''down''))])) (js ''10:00'')]
      loaded) = [\<lparr>query = js ''q'', answer = JStr [], sources = JArr [], time = js ''10:00''\<rparr>] \<and>
   messages (run plain [Input (js ''q''), Submit,
      Response 0 (Json (JObj [(js ''answer'', JStr []), (js ''sources'', JNum 5)])) (js ''10:00'')]
      loaded) = [UserMsg (js ''q''), BotMsg [] [], BotMsg error_markup []] \<and>
   chatHistory (run plain [Input (js ''q''), Submit,
      Response 0 (Json (JObj [(js ''answer'', JStr []), (js ''sources'', JNum 5)])) (js ''10:00'')]
      loaded) = [\<lparr>query = js ''q'', answer = JStr [], sources = JNum 5, time = js ''10:00''\<rparr>]"
  apply (simp add: step_def sendMessage_fields)
  apply (simp add: sendMessage_resume_def try_block_def or_stop_def awaited_def js_or_def Let_def
      applyInlineCitations_def length_is_0_def plain_def renderSources_def renderHistory_def
      messages_addBotMessage has_sources_def)
  apply (simp add: sendMessage_def Let_def loaded_def updateSendState_def js_simps trim_def
      setThinking_def addUserMessage_def hideEmptyState_def replace_all_def addBotMessage_def
      has_sources_def)
  done

text \<open>
  C4, amended. When the request fails before the answer is shown, that is, when
  \<open>fetch\<close> rejects, the body is not JSON, or an error is thrown while the fields of
  the answer are read or the answer text is annotated or rendered to HTML, the message
  list gains exactly the error bubble, no Exchange is recorded, the history and source
  panels stay as they were, and the in-flight flag is cleared: the send button is
  disabled only while the input is empty. The flag is cleared after every response.
\<close>

theorem request_failure:
  "prepared ev resp = Inl e \<Longrightarrow>
   messages (sendMessage_resume ev now qry resp s) =
     messages (hideEmptyState s) @
     [BotMsg error_markup (map (\<lambda>a. (a, None)) (citation_links ev error_markup))] \<and>
   chatHistory (sendMessage_resume ev now qry resp s) = chatHistory s \<and>
   historyList (sendMessage_resume ev now qry resp s) = historyList s \<and>
   sourcesList (sendMessage_resume ev now qry resp s) = sourcesList s \<and>
   isThinking (sendMessage_resume ev now qry resp s) = False \<and>
   sendBtn_disabled (sendMessage_resume ev now qry resp s) = (trim (queryInput s) = []) \<and>
   prepared ev NetworkError = Inl TypeError \<and>
   prepared ev NotJson = Inl SyntaxError \<and>
   isThinking (sendMessage_resume ev now qry resp' s) = False"
proof -
  assume "prepared ev resp = Inl e"
  then have r: "sendMessage_resume ev now qry resp s =
      setThinking False (addBotMessage ev error_markup JNull (s\<lparr>console := console s @ [e]\<rparr>))"
    by (simp add: sendMessage_resume_def try_block_prepared)
  have "messages (sendMessage_resume ev now qry resp s) =
           messages (hideEmptyState s) @
           [BotMsg error_markup (map (\<lambda>a. (a, None)) (citation_links ev error_markup))]"
    by (simp add: r addBotMessage_def Let_def has_sources_def hideEmptyState_def)
  moreover have "prepared ev NetworkError = Inl TypeError" "prepared ev NotJson = Inl SyntaxError"
    by (simp_all add: prepared_def awaited_def and_then_def)
  ultimately show ?thesis
    by (simp add: r sendMessage_resume_fields)
qed

theorem request_failure_witness:
  "messages (sendMessage_resume plain (js ''10:00'') (js ''a'') NotJson
       (sendMessage (loaded\<lparr>queryInput := js ''a''\<rparr>)))
     = [UserMsg (js ''a''), BotMsg error_markup []]
   \<and> chatHistory (sendMessage_resume plain (js ''10:00'') (js ''a'') NotJson
       (sendMessage (loaded\<lparr>queryInput := js ''a''\<rparr>))) = []
   \<and> isThinking (sendMessage_resume plain (js ''10:00'') (js ''a'') NotJson
       (sendMessage (loaded\<lparr>queryInput := js ''a''\<rparr>))) = False"
proof -
  have "prepared plain NotJson = Inl SyntaxError"
    by (simp add: prepared_def awaited_def and_then_def)
  from request_failure [OF this, of "js ''10:00''" "js ''a''"
      "sendMessage (loaded\<lparr>queryInput := js ''a''\<rparr>)"]
  show ?thesis
    by (simp add: sendMessage_def Let_def loaded_def js_simps trim_def setThinking_def
      updateSendState_def addUserMessage_def hideEmptyState_def plain_def
      replace_all_def)
qed

section \<open>Properties of the inline citations\<close>

lemma special_iff:
  "special c \<longleftrightarrow> c = 46 \<or> c = 42 \<or> c = 43 \<or> c = 63 \<or> c = 94 \<or> c = 36 \<or> c = 123 \<or>
     c = 125 \<or> c = 40 \<or> c = 41 \<or> c = 124 \<or> c = 91 \<or> c = 93 \<or> c = 92"
  by (simp add: special_def js_simps)

lemma syntax_char_special: "syntax_char c = special c"
  by (auto simp add: syntax_char_def special_iff js_simps)

lemma escape_from:
  "replace_from [One (OneOf (js ''.*+?^${}()|[]'' @ [92]))] (92 # js ''$&'') 0 pre s =
     concat (map (\<lambda>c. if special c then [92, c] else [c]) s)"
proof (induction s arbitrary: pre)
  case Nil
  show ?case by simp
next
  case (Cons c s)
  have t: "substitution [c] pre s (92 # js ''$&'') = [92, c]"
    by (simp add: js_simps)
  show ?case
    by (auto simp add: Cons t special_def Let_def simp del: substitution.simps)
qed

lemma escapeRegExp_eq:
  "escapeRegExp s = concat (map (\<lambda>c. if special c then [92, c] else [c]) s)"
  by (simp add: escapeRegExp_def replace_all_def escape_from)

lemma parse_escaped:
  "parse (escapeRegExp c @ rest) cur st = parse rest (rev (map (\<lambda>x. One (Lit x)) c) @ cur) st"
proof (induction c arbitrary: cur)
  case Nil
  show ?case by (simp add: escapeRegExp_eq)
next
  case (Cons x c)
  have IH: "\<And>cur. parse (concat (map (\<lambda>c. if special c then [92, c] else [c]) c) @ rest) cur st =
      parse rest (rev (map (\<lambda>x. One (Lit x)) c) @ cur) st"
    using Cons by (simp add: escapeRegExp_eq)
  show ?case
  proof (cases "special x")
    case True
    then have "escape_atom x = Some (Lit x)"
      by (auto simp add: escape_atom_def syntax_char_special special_iff)
    with True show ?thesis
      by (simp add: escapeRegExp_eq IH)
  next
    case False
    then have "x \<noteq> 92" "x \<noteq> 40" "x \<noteq> 41" "x \<noteq> 63" "x \<noteq> 42" "x \<noteq> 43"
      by (auto simp add: special_iff)
    with False show ?thesis
      by (simp add: escapeRegExp_eq IH syntax_char_special)
  qed
qed

lemma new_RegExp_pattern: "new_RegExp (pattern_source c) = Inr (citation_pattern c)"
proof -
  have e: "escape_atom 40 = Some (Lit 40)" "escape_atom 41 = Some (Lit 41)"
      "escape_atom 91 = Some (Lit 91)" "escape_atom 93 = Some (Lit 93)"
      "escape_atom 115 = Some Space" "escape_atom 100 = Some Digit"
    by (simp_all add: escape_atom_def syntax_char_special special_iff)
  have "parse (pattern_source c) [] [] = Some (citation_pattern c)"
    by (simp add: pattern_source_def flexiblePattern_def js_simps e parse_escaped
        citation_pattern_def guard_def syntax_char_special special_iff)
  then show ?thesis
    by (simp add: new_RegExp_def)
qed

lemma rmatch_lits_append: "rmatch (map (\<lambda>x. One (Lit x)) c @ r) (c @ s) = rmatch r s"
  by (induction c) simp_all

lemma rmatch_lits_Some:
  "rmatch (map (\<lambda>x. One (Lit x)) c @ r) s = Some y \<Longrightarrow> \<exists>s'. s = c @ s' \<and> rmatch r s' = Some y"
proof (induction c arbitrary: s)
  case Nil
  then show ?case by simp
next
  case (Cons x c)
  then show ?case
    by (cases s) (auto split: if_splits)
qed

lemma rmatch_Star_Some:
  "rmatch (Star a # r) s = Some y \<Longrightarrow>
   \<exists>w s'. s = w @ s' \<and> (\<forall>c\<in>set w. ok a c) \<and> rmatch r s' = Some y"
proof (induction s)
  case Nil
  then show ?case by simp
next
  case (Cons c s)
  show ?case
  proof (cases "ok a c \<and> rmatch (Star a # r) s = Some y")
    case True
    with Cons.IH obtain w s' where "s = w @ s'" "\<forall>c\<in>set w. ok a c" "rmatch r s' = Some y"
      by blast
    with True have "c # s = (c # w) @ s' \<and> (\<forall>c\<in>set (c # w). ok a c) \<and> rmatch r s' = Some y"
      by simp
    then show ?thesis by blast
  next
    case False
    with Cons.prems have "rmatch r (c # s) = Some y"
      by (auto split: if_splits option.splits)
    then have "c # s = [] @ (c # s) \<and> (\<forall>c\<in>set []. ok a c) \<and> rmatch r (c # s) = Some y"
      by simp
    then show ?thesis by blast
  qed
qed

lemma rmatch_Opt_Some:
  "rmatch (Opt a # r) s = Some y \<Longrightarrow>
   \<exists>w s'. s = w @ s' \<and> (w = [] \<or> (\<exists>c. w = [c] \<and> ok a c)) \<and> rmatch r s' = Some y"
proof (cases s)
  case Nil
  assume "rmatch (Opt a # r) s = Some y"
  with Nil show ?thesis by simp
next
  case (Cons c cs)
  assume m: "rmatch (Opt a # r) s = Some y"
  show ?thesis
  proof (cases "ok a c \<and> rmatch r cs = Some y")
    case True
    with Cons have "s = [c] @ cs \<and> ([c] = [] \<or> (\<exists>d. [c] = [d] \<and> ok a d)) \<and> rmatch r cs = Some y"
      by simp
    then show ?thesis by blast
  next
    case False
    with m Cons have "rmatch r s = Some y"
      by (auto split: if_splits option.splits)
    then have "s = [] @ s \<and> ([] = [] \<or> (\<exists>d. [] = [d] \<and> ok a d)) \<and> rmatch r s = Some y"
      by simp
    then show ?thesis by blast
  qed
qed

lemma rmatch_Star_complete:
  "\<forall>c\<in>set w. ok a c \<Longrightarrow> rmatch r s \<noteq> None \<Longrightarrow> rmatch (Star a # r) (w @ s) \<noteq> None"
proof (induction w)
  case Nil
  then show ?case by (cases s) (auto split: option.splits)
next
  case (Cons c w)
  then show ?case by (auto split: option.splits)
qed

lemma rmatch_Opt_skip: "rmatch r s \<noteq> None \<Longrightarrow> rmatch (Opt a # r) s \<noteq> None"
  by (cases s) (auto split: option.splits)

lemma rmatch_Opt_take:
  "ok a c \<Longrightarrow> rmatch r s \<noteq> None \<Longrightarrow> rmatch (Opt a # r) (c # s) \<noteq> None"
  by (auto split: option.splits)

lemma guard_blocks:
  assumes "\<forall>c\<in>set ws. is_space c" "ds \<noteq> []" "\<forall>d\<in>set ds. is_digit d"
  shows "rmatch guard (ws @ 91 # ds @ 93 # rest) \<noteq> None"
proof -
  from assms(2) obtain d ds' where ds: "ds = d # ds'"
    by (cases ds) auto
  have "rmatch [One (Lit 93)] (93 # rest) \<noteq> None"
    by simp
  with assms(3) ds have "rmatch (Star Digit # [One (Lit 93)]) (ds' @ 93 # rest) \<noteq> None"
    by (intro rmatch_Star_complete) auto
  with assms(3) ds have "rmatch [One (Lit 91), Plus Digit, One (Lit 93)] (91 # ds @ 93 # rest) \<noteq> None"
    by simp
  with assms(1) show ?thesis
    unfolding guard_def by (intro rmatch_Star_complete) auto
qed

lemma match_sound:
  assumes "rmatch (citation_pattern c) t = Some r"
  shows "\<exists>p1 w1 w2 p2. t = p1 @ w1 @ c @ w2 @ p2 @ r \<and> (p1 = [] \<or> p1 = [40]) \<and>
           (\<forall>x\<in>set w1. is_space x) \<and> (\<forall>x\<in>set w2. is_space x) \<and> (p2 = [] \<or> p2 = [41]) \<and>
           rmatch guard r = None"
proof -
  from assms have "rmatch (Opt (Lit 40) # Star Space # map (\<lambda>x. One (Lit x)) c @
      [Star Space, Opt (Lit 41), NegLook guard]) t = Some r"
    by (simp add: citation_pattern_def)
  from rmatch_Opt_Some [OF this] obtain p1 t1 where 1: "t = p1 @ t1" "p1 = [] \<or> p1 = [40]"
      "rmatch (Star Space # map (\<lambda>x. One (Lit x)) c @
         [Star Space, Opt (Lit 41), NegLook guard]) t1 = Some r"
    by auto
  from rmatch_Star_Some [OF 1(3)] obtain w1 t2 where 2: "t1 = w1 @ t2" "\<forall>x\<in>set w1. is_space x"
      "rmatch (map (\<lambda>x. One (Lit x)) c @ [Star Space, Opt (Lit 41), NegLook guard]) t2 = Some r"
    by auto
  from rmatch_lits_Some [OF 2(3)] obtain t3 where 3: "t2 = c @ t3"
      "rmatch [Star Space, Opt (Lit 41), NegLook guard] t3 = Some r"
    by auto
  from rmatch_Star_Some [OF 3(2)] obtain w2 t4 where 4: "t3 = w2 @ t4" "\<forall>x\<in>set w2. is_space x"
      "rmatch [Opt (Lit 41), NegLook guard] t4 = Some r"
    by auto
  from rmatch_Opt_Some [OF 4(3)] obtain p2 t5 where 5: "t4 = p2 @ t5" "p2 = [] \<or> p2 = [41]"
      "rmatch [NegLook guard] t5 = Some r"
    by auto
  from 5(3) have 6: "t5 = r" "rmatch guard r = None"
    by (auto split: option.splits)
  from 1 2 3 4 5 6 show ?thesis
    by blast
qed

lemma match_complete:
  assumes "p1 = [] \<or> p1 = [40]" "\<forall>x\<in>set w1. is_space x" "\<forall>x\<in>set w2. is_space x"
    "p2 = [] \<or> p2 = [41]" "rmatch guard r = None"
  shows "rmatch (citation_pattern c) (p1 @ w1 @ c @ w2 @ p2 @ r) \<noteq> None"
proof -
  from assms(5) have ng: "rmatch [NegLook guard] r \<noteq> None"
    by simp
  have "rmatch [Opt (Lit 41), NegLook guard] (p2 @ r) \<noteq> None"
  proof (cases "p2 = []")
    case True
    with rmatch_Opt_skip [OF ng] show ?thesis by simp
  next
    case False
    with assms(4) have "p2 = [41]" by simp
    moreover have "ok (Lit 41) 41" by simp
    ultimately show ?thesis
      using rmatch_Opt_take [OF _ ng, of "Lit 41" 41] by simp
  qed
  with assms(3) have "rmatch (Star Space # [Opt (Lit 41), NegLook guard]) (w2 @ p2 @ r) \<noteq> None"
    by (intro rmatch_Star_complete) auto
  then have "rmatch (map (\<lambda>x. One (Lit x)) c @ [Star Space, Opt (Lit 41), NegLook guard])
      (c @ w2 @ p2 @ r) \<noteq> None"
    by (simp add: rmatch_lits_append)
  with assms(2) have "rmatch (Star Space # map (\<lambda>x. One (Lit x)) c @
      [Star Space, Opt (Lit 41), NegLook guard]) (w1 @ c @ w2 @ p2 @ r) \<noteq> None"
    by (intro rmatch_Star_complete) auto
  then have st: "rmatch (Star Space # map (\<lambda>x. One (Lit x)) c @
      [Star Space, Opt (Lit 41), NegLook guard]) (w1 @ c @ w2 @ p2 @ r) \<noteq> None" .
  have "rmatch (Opt (Lit 40) # Star Space # map (\<lambda>x. One (Lit x)) c @
      [Star Space, Opt (Lit 41), NegLook guard]) (p1 @ w1 @ c @ w2 @ p2 @ r) \<noteq> None"
  proof (cases "p1 = []")
    case True
    with rmatch_Opt_skip [OF st] show ?thesis by simp
  next
    case False
    with assms(1) have "p1 = [40]" by simp
    moreover have "ok (Lit 40) 40" by simp
    ultimately show ?thesis
      using rmatch_Opt_take [OF _ st, of "Lit 40" 40] by simp
  qed
  then show ?thesis
    by (simp add: citation_pattern_def)
qed

lemma spaces_prefix:
  "\<forall>x\<in>set w. is_space x \<Longrightarrow> \<forall>x\<in>set ws. is_space x \<Longrightarrow> \<not> is_space y \<Longrightarrow>
   w @ s = ws @ y # D \<Longrightarrow> \<exists>ws'. ws = w @ ws' \<and> s = ws' @ y # D"
proof (induction w arbitrary: ws)
  case Nil
  then show ?case by simp
next
  case (Cons a w)
  show ?case
  proof (cases ws)
    case Nil
    with Cons.prems show ?thesis by auto
  next
    case (Cons b ws1)
    with Cons.prems have "a = b" "w @ s = ws1 @ y # D" "\<forall>x\<in>set ws1. is_space x"
        "\<forall>x\<in>set w. is_space x"
      by auto
    with Cons.IH [of ws1] Cons.prems(3) obtain ws' where "ws1 = w @ ws'" "s = ws' @ y # D"
      by blast
    with Cons \<open>a = b\<close> show ?thesis by simp
  qed
qed

lemma take_without:
  "y \<notin> set (take k (ws @ y # D)) \<Longrightarrow> k \<le> length ws"
proof (rule ccontr)
  assume n: "y \<notin> set (take k (ws @ y # D))" and "\<not> k \<le> length ws"
  then obtain m where "k - length ws = Suc m"
    by (cases "k - length ws") simp_all
  with n show False by simp
qed

lemma not_space_91: "\<not> is_space 91" "\<not> is_space 40" "\<not> is_space 41"
  by (simp_all add: is_space_def)

lemma guard_skips:
  assumes ws: "\<forall>x\<in>set ws. is_space x" and ds: "ds \<noteq> []" "\<forall>d\<in>set ds. is_digit d"
  shows "rmatch (citation_pattern c) (c @ ws @ 91 # ds @ 93 # rest) = None"
proof (rule ccontr)
  let ?D = "ds @ 93 # rest"
  let ?T = "ws @ 91 # ?D"
  assume "rmatch (citation_pattern c) (c @ ws @ 91 # ds @ 93 # rest) \<noteq> None"
  then obtain r where "rmatch (citation_pattern c) (c @ ?T) = Some r"
    by auto
  from match_sound [OF this] obtain p1 w1 w2 p2 where
    d: "c @ ?T = p1 @ w1 @ c @ w2 @ p2 @ r" and p1: "p1 = [] \<or> p1 = [40]" and
    w1: "\<forall>x\<in>set w1. is_space x" and w2: "\<forall>x\<in>set w2. is_space x" and
    p2: "p2 = [] \<or> p2 = [41]" and g: "rmatch guard r = None"
    by blast
  define u where "u = p1 @ w1"
  define X where "X = w2 @ p2 @ r"
  define v where "v = take (length u) ?T"
  from d have e: "c @ ?T = u @ c @ X"
    by (simp add: u_def X_def)
  then have "drop (length c + length u) (c @ ?T) = drop (length u + length c) (u @ c @ X)"
    by (simp add: add.commute)
  then have X: "X = drop (length u) ?T"
    by simp
  from e have "take (length c + length u) (c @ ?T) = take (length u + length c) (u @ c @ X)"
    by (simp add: add.commute)
  then have "c @ v = u @ c"
    by (simp add: v_def)
  then have "count_list (c @ v) 91 = count_list (u @ c) 91"
    by simp
  then have "count_list v 91 = count_list u 91"
    by simp
  moreover have "91 \<notin> set u"
    using p1 w1 not_space_91 by (auto simp add: u_def)
  ultimately have "91 \<notin> set (take (length u) ?T)"
    by (simp add: v_def count_list_0_iff [symmetric] del: count_list_0_iff)
  then have k: "length u \<le> length ws"
    by (rule take_without)
  define ws' where "ws' = drop (length u) ws"
  from k X have X': "X = ws' @ 91 # ?D"
    by (simp add: ws'_def)
  have s': "\<forall>x\<in>set ws'. is_space x"
    using ws by (auto simp add: ws'_def dest: in_set_dropD)
  from X' have "w2 @ (p2 @ r) = ws' @ 91 # ?D"
    by (simp add: X_def)
  from spaces_prefix [OF w2 s' not_space_91(1) this] obtain ws'' where
    w: "ws' = w2 @ ws''" "p2 @ r = ws'' @ 91 # ?D"
    by blast
  from w(1) s' have s'': "\<forall>x\<in>set ws''. is_space x"
    by simp
  have "p2 = []"
  proof (rule ccontr)
    assume "p2 \<noteq> []"
    with p2 have "p2 = [41]" by simp
    with w(2) have "41 # r = ws'' @ 91 # ?D" by simp
    with s'' not_space_91 show False
      by (cases ws'') auto
  qed
  with w(2) have "r = ws'' @ 91 # ds @ 93 # rest"
    by simp
  with guard_blocks [OF s'' ds, of rest] g show False
    by simp
qed

lemma annotate_step_string:
  "citation_of s = Inr (JStr c) \<Longrightarrow> c \<noteq> [] \<Longrightarrow>
   annotate_step (JStr a) s i =
     Inr (JStr (replace_all a (citation_pattern c) (c @ 32 # marker i)))"
  by (simp add: annotate_step_def new_RegExp_pattern)

lemma citation_of_cites: "citation_of (cites c) = Inr (JStr c)"
  by (simp add: citation_of_def cites_def js_simps)

lemma apply_one:
  "a \<noteq> [] \<Longrightarrow> c \<noteq> [] \<Longrightarrow>
   applyInlineCitations (JStr a) (JArr [cites c]) =
     Inr (JStr (replace_all a (citation_pattern c) (c @ 32 # marker 0)))"
  by (simp add: applyInlineCitations_def length_is_0_def annotate_step_string citation_of_cites)

lemma marker_0:
  "marker 0 = js ''<button type='' @ 34 # js ''button'' @ 34 # js '' class='' @
     34 # js ''btn btn-link p-0 citation-link'' @ 34 # js '' data-source-index='' @
     34 # js ''0'' @ 34 # js ''>[1]</button>''"
  by (simp add: marker_def decimal_small js_simps)

text \<open>
  C1, as stated, fails: the marker that the annotation puts behind a citation is a button
  element, which the lookahead for a bracketed number does not see, so a second
  application to the annotated text puts a second marker behind the same occurrence.
\<close>

theorem annotation_not_idempotent:
  "applyInlineCitations
     (JStr (js ''See Smith v Jones (2001) ABC 1 [and again later]''))
     (JArr [cites (js ''(2001) ABC 1'')]) =
   Inr (JStr (js ''See Smith v Jones(2001) ABC 1 '' @ marker 0 @ js ''[and again later]'')) \<and>
   applyInlineCitations
     (JStr (js ''See Smith v Jones(2001) ABC 1 '' @ marker 0 @ js ''[and again later]''))
     (JArr [cites (js ''(2001) ABC 1'')]) =
   Inr (JStr (js ''See Smith v Jones(2001) ABC 1 '' @ marker 0 @ marker 0 @
     js ''[and again later]'')) \<and>
   applyInlineCitations
     (JStr (js ''See Smith v Jones(2001) ABC 1 '' @ marker 0 @ js ''[and again later]''))
     (JArr [cites (js ''(2001) ABC 1'')]) \<noteq>
   Inr (JStr (js ''See Smith v Jones(2001) ABC 1 '' @ marker 0 @ js ''[and again later]''))"
proof -
  have 1: "applyInlineCitations
     (JStr (js ''See Smith v Jones (2001) ABC 1 [and again later]''))
     (JArr [cites (js ''(2001) ABC 1'')]) =
   Inr (JStr (js ''See Smith v Jones(2001) ABC 1 '' @ marker 0 @ js ''[and again later]''))"
    by (simp add: apply_one marker_0 js_simps replace_all_def citation_pattern_def guard_def
        is_digit_def)
  have 2: "applyInlineCitations
     (JStr (js ''See Smith v Jones(2001) ABC 1 '' @ marker 0 @ js ''[and again later]''))
     (JArr [cites (js ''(2001) ABC 1'')]) =
   Inr (JStr (js ''See Smith v Jones(2001) ABC 1 '' @ marker 0 @ marker 0 @
     js ''[and again later]''))"
    by (simp add: apply_one marker_0 js_simps replace_all_def citation_pattern_def guard_def
        is_digit_def)
  have 3: "marker 0 \<noteq> []"
    by (simp add: marker_0 js_simps)
  from 1 2 3 show ?thesis
    by simp
qed

lemma rmatch_empty: "c \<noteq> [] \<Longrightarrow> rmatch (citation_pattern c) [] = None"
proof (rule ccontr)
  assume c: "c \<noteq> []" and "rmatch (citation_pattern c) [] \<noteq> None"
  then obtain r where "rmatch (citation_pattern c) [] = Some r"
    by auto
  from match_sound [OF this] c show False
    by auto
qed

lemma replace_all_empty: "c \<noteq> [] \<Longrightarrow> replace_all [] (citation_pattern c) t = []"
  by (simp add: replace_all_def rmatch_empty)

lemma substitution_plain: "36 \<notin> set t \<Longrightarrow> substitution m pre post t = t"
  by (induction m pre post t rule: substitution.induct) auto

lemma marker_plain: "36 \<notin> set (marker i)"
  using decimal_digits [of 36 i] decimal_digits [of 36 "i + 1"]
  by (auto simp add: marker_def js_simps is_digit_def)

lemma marker_starts: "\<exists>rest. marker i = 60 # rest"
  by (simp add: marker_def js_simps)

lemma replace_from_skip:
  "replace_from p t (length xs) pre (xs @ ys) = replace_from p t 0 (pre @ xs) ys"
  by (induction xs arbitrary: pre) simp_all

lemma replace_from_nonempty:
  "36 \<notin> set t \<Longrightarrow> t \<noteq> [] \<Longrightarrow> s \<noteq> [] \<Longrightarrow> replace_from p t 0 pre s \<noteq> []"
  by (cases s) (auto simp add: substitution_plain Let_def split: option.splits)

lemma replace_from_match:
  assumes "rmatch p (m @ r) = Some r" "m \<noteq> []" "36 \<notin> set t"
  shows "replace_from p t 0 pre (m @ r) = t @ replace_from p t 0 (pre @ m) r"
proof -
  from assms(2) obtain c cs where m: "m = c # cs"
    by (cases m) auto
  have "replace_from p t (length cs) (pre @ [c]) (cs @ r) = replace_from p t 0 ((pre @ [c]) @ cs) r"
    by (rule replace_from_skip)
  with assms(1,3) m show ?thesis
    by (simp add: substitution_plain Let_def)
qed

lemma annotate_citation:
  assumes "c \<noteq> []" "36 \<notin> set c"
  shows "replace_all c (citation_pattern c) (c @ 32 # marker 0) = c @ 32 # marker 0"
proof -
  have "rmatch guard [] = None"
    by (simp add: guard_def)
  with match_complete [of "[]" "[]" "[]" "[]" "[]" c]
  obtain r where r: "rmatch (citation_pattern c) c = Some r"
    by auto
  from match_sound [OF r] have "r = []"
    by (auto simp add: append_eq_append_conv2 dest: arg_cong [where f = length])
  with r have "rmatch (citation_pattern c) (c @ []) = Some []"
    by simp
  from replace_from_match [OF this assms(1), of "c @ 32 # marker 0" "[]"] assms(2)
  show ?thesis
    by (simp add: replace_all_def marker_plain rmatch_empty [OF assms(1)])
qed

lemma annotate_again:
  assumes "c \<noteq> []" "36 \<notin> set c"
  shows "\<exists>more. more \<noteq> [] \<and>
     replace_all (c @ 32 # marker 0) (citation_pattern c) (c @ 32 # marker 0) =
       c @ 32 # marker 0 @ more"
proof -
  obtain rest where ms: "marker 0 = 60 # rest"
    using marker_starts by blast
  have "rmatch guard (marker 0) = None"
    by (simp add: ms guard_def)
  with match_complete [of "[]" "[]" "[32]" "[]" "marker 0" c]
  obtain r where r: "rmatch (citation_pattern c) (c @ 32 # marker 0) = Some r"
    by auto
  from match_sound [OF r] obtain p1 w1 w2 p2 where
    d: "c @ 32 # marker 0 = p1 @ w1 @ c @ w2 @ p2 @ r" and p1: "p1 = [] \<or> p1 = [40]" and
    w1: "\<forall>x\<in>set w1. is_space x" and w2: "\<forall>x\<in>set w2. is_space x" and
    p2: "p2 = [] \<or> p2 = [41]"
    by blast
  define m where "m = p1 @ w1 @ c @ w2 @ p2"
  have mr: "c @ 32 # marker 0 = m @ r"
    using d by (simp add: m_def)
  have ns: "\<not> is_space 60"
    by (simp add: is_space_def)
  have "60 \<notin> set p1" "60 \<notin> set w1" "60 \<notin> set w2" "60 \<notin> set p2"
    using p1 p2 w1 w2 ns by auto
  then have cm: "count_list m 60 = count_list c 60"
    by (simp add: m_def)
  have "count_list (c @ 32 # marker 0) 60 = count_list (m @ r) 60"
    using mr by simp
  then have "count_list r 60 = Suc (count_list rest 60)"
    using cm by (simp add: ms)
  then have rn: "r \<noteq> []"
    by auto
  have mn: "m \<noteq> []"
    using assms(1) by (simp add: m_def)
  define T where "T = c @ 32 # marker 0"
  have plain: "36 \<notin> set T" "T \<noteq> []"
    using assms(2) by (simp_all add: T_def marker_plain)
  from r mr have "rmatch (citation_pattern c) (m @ r) = Some r"
    by simp
  from replace_from_match [OF this mn plain(1), of "[]"]
  have "replace_from (citation_pattern c) T 0 [] (m @ r) =
      T @ replace_from (citation_pattern c) T 0 m r"
    by simp
  moreover have "replace_from (citation_pattern c) T 0 [] T =
      replace_from (citation_pattern c) T 0 [] (m @ r)"
    using mr by (simp add: T_def)
  ultimately have "replace_all T (citation_pattern c) T =
      T @ replace_from (citation_pattern c) T 0 m r"
    by (simp add: replace_all_def)
  moreover have "replace_from (citation_pattern c) T 0 m r \<noteq> []"
    using plain rn by (intro replace_from_nonempty)
  ultimately show ?thesis
    by (simp add: T_def)
qed

text \<open>
  C1, amended. What the lookahead does: the pattern built for a citation does not match
  at an occurrence of the citation that is directly followed by optional white space and
  a decimal number in brackets, so that the annotation puts no marker there. The
  annotation is not idempotent: for every citation that is not empty and has no dollar
  sign, the annotation of the text that consists of the citation is the citation, a space
  and the marker, and the annotation of this output is longer: it is the first output
  followed by more text.
\<close>

theorem annotation_guard:
  "new_RegExp (pattern_source c) = Inr (citation_pattern c) \<and>
   ((\<forall>x\<in>set ws. is_space x) \<and> ds \<noteq> [] \<and> (\<forall>d\<in>set ds. is_digit d) \<longrightarrow>
      rmatch (citation_pattern c) (c @ ws @ 91 # ds @ 93 # rest) = None) \<and>
   (c \<noteq> [] \<and> 36 \<notin> set c \<longrightarrow>
      applyInlineCitations (JStr c) (JArr [cites c]) = Inr (JStr (c @ 32 # marker 0)) \<and>
      (\<exists>more. more \<noteq> [] \<and>
         applyInlineCitations (JStr (c @ 32 # marker 0)) (JArr [cites c]) =
           Inr (JStr (c @ 32 # marker 0 @ more))))"
proof -
  have 1: "(\<forall>x\<in>set ws. is_space x) \<and> ds \<noteq> [] \<and> (\<forall>d\<in>set ds. is_digit d) \<longrightarrow>
      rmatch (citation_pattern c) (c @ ws @ 91 # ds @ 93 # rest) = None"
    by (simp add: guard_skips)
  have 2: "c \<noteq> [] \<and> 36 \<notin> set c \<longrightarrow>
      applyInlineCitations (JStr c) (JArr [cites c]) = Inr (JStr (c @ 32 # marker 0))"
    by (simp add: apply_one annotate_citation)
  have 3: "c \<noteq> [] \<and> 36 \<notin> set c \<longrightarrow>
      (\<exists>more. more \<noteq> [] \<and>
         applyInlineCitations (JStr (c @ 32 # marker 0)) (JArr [cites c]) =
           Inr (JStr (c @ 32 # marker 0 @ more)))"
    using annotate_again [of c] by (simp add: apply_one)
  from 1 2 3 new_RegExp_pattern [of c] show ?thesis
    by blast
qed

theorem annotation_guard_witness:
  "rmatch (citation_pattern (js ''ABC'')) (js ''ABC [12]'') = None \<and>
   applyInlineCitations (JStr (js ''ABC'')) (JArr [cites (js ''ABC'')]) =
     Inr (JStr (js ''ABC '' @ marker 0)) \<and>
   applyInlineCitations (JStr (js ''ABC '' @ marker 0)) (JArr [cites (js ''ABC'')]) \<noteq>
     Inr (JStr (js ''ABC '' @ marker 0))"
proof -
  have h: "(\<forall>x\<in>set [32]. is_space x) \<and> js ''12'' \<noteq> [] \<and> (\<forall>d\<in>set (js ''12''). is_digit d)"
      "js ''ABC'' \<noteq> [] \<and> 36 \<notin> set (js ''ABC'')"
    by (simp_all add: js_simps is_digit_def)
  from annotation_guard [of "js ''ABC''" "[32]" "js ''12''" "[]"] h
  have "rmatch (citation_pattern (js ''ABC'')) (js ''ABC'' @ [32] @ 91 # js ''12'' @ [93]) = None"
    "applyInlineCitations (JStr (js ''ABC'')) (JArr [cites (js ''ABC'')]) =
       Inr (JStr (js ''ABC'' @ 32 # marker 0))"
    "\<exists>more. more \<noteq> [] \<and>
       applyInlineCitations (JStr (js ''ABC'' @ 32 # marker 0)) (JArr [cites (js ''ABC'')]) =
         Inr (JStr (js ''ABC'' @ 32 # marker 0 @ more))"
    by blast+
  then show ?thesis
    by (auto simp add: js_simps)
qed

text \<open>
  C5, as stated, fails for the case: the pattern has no \<open>i\<close> flag, and the lower-case
  occurrence of the citation \<open>ABC\<close> gets no marker.
\<close>

theorem case_sensitive_match:
  "applyInlineCitations (JStr (js ''see abc'')) (JArr [cites (js ''ABC'')]) =
     Inr (JStr (js ''see abc''))"
  by (simp add: apply_one js_simps replace_all_def citation_pattern_def guard_def)

text \<open>
  C5, amended. The pattern built for a citation is read by \<open>new RegExp\<close> without
  error, and it matches at the start of a text exactly when the text starts with an
  optional opening parenthesis, white space, the citation itself code unit by code unit
  (that is, in the same case), white space and an optional closing parenthesis, split in
  some way such that what follows is not white space and a number in brackets.
\<close>

theorem pattern_matches:
  "new_RegExp (pattern_source c) = Inr (citation_pattern c) \<and>
   (rmatch (citation_pattern c) t \<noteq> None \<longleftrightarrow>
     (\<exists>p1 w1 w2 p2 r. t = p1 @ w1 @ c @ w2 @ p2 @ r \<and> (p1 = [] \<or> p1 = [40]) \<and>
        (\<forall>x\<in>set w1. is_space x) \<and> (\<forall>x\<in>set w2. is_space x) \<and> (p2 = [] \<or> p2 = [41]) \<and>
        rmatch guard r = None))"
proof -
  have "rmatch (citation_pattern c) t \<noteq> None \<Longrightarrow>
     (\<exists>p1 w1 w2 p2 r. t = p1 @ w1 @ c @ w2 @ p2 @ r \<and> (p1 = [] \<or> p1 = [40]) \<and>
        (\<forall>x\<in>set w1. is_space x) \<and> (\<forall>x\<in>set w2. is_space x) \<and> (p2 = [] \<or> p2 = [41]) \<and>
        rmatch guard r = None)"
    using match_sound [of c t] by blast
  moreover have "(\<exists>p1 w1 w2 p2 r. t = p1 @ w1 @ c @ w2 @ p2 @ r \<and> (p1 = [] \<or> p1 = [40]) \<and>
        (\<forall>x\<in>set w1. is_space x) \<and> (\<forall>x\<in>set w2. is_space x) \<and> (p2 = [] \<or> p2 = [41]) \<and>
        rmatch guard r = None) \<Longrightarrow> rmatch (citation_pattern c) t \<noteq> None"
    using match_complete [of _ _ _ _ _ c] by blast
  ultimately show ?thesis
    using new_RegExp_pattern [of c] by blast
qed

theorem pattern_matches_witness:
  "rmatch (citation_pattern (js ''ABC'')) (js ''( ABC ) said'') \<noteq> None"
proof -
  have "js ''( ABC ) said'' = [40] @ [32] @ js ''ABC'' @ [32] @ [41] @ js '' said'' \<and>
      ([40] = [] \<or> [40] = [40::nat]) \<and> (\<forall>x\<in>set [32]. is_space x) \<and>
      (\<forall>x\<in>set [32]. is_space x) \<and> ([41] = [] \<or> [41] = [41::nat]) \<and>
      rmatch guard (js '' said'') = None"
    by (simp add: js_simps guard_def)
  then have "\<exists>p1 w1 w2 p2 r. js ''( ABC ) said'' = p1 @ w1 @ js ''ABC'' @ w2 @ p2 @ r \<and>
      (p1 = [] \<or> p1 = [40]) \<and> (\<forall>x\<in>set w1. is_space x) \<and> (\<forall>x\<in>set w2. is_space x) \<and>
      (p2 = [] \<or> p2 = [41]) \<and> rmatch guard r = None"
    by blast
  with pattern_matches [of "js ''ABC''" "js ''( ABC ) said''"] show ?thesis
    by blast
qed

lemma annotate_step_well_typed:
  "well_typed s \<Longrightarrow>
   annotate_step (JStr t) s i =
     Inr (JStr (if chosen_citation s = [] then t
                else replace_all t (citation_pattern (chosen_citation s))
                       (chosen_citation s @ 32 # marker i)))"
proof -
  assume wt: "well_typed s"
  then obtain v where v: "citation_of s = Inr v" "optional_string v"
      "text_of v = chosen_citation s"
    using citation_of_well_typed by blast
  show ?thesis
  proof (cases "chosen_citation s = []")
    case True
    with v show ?thesis
      by (simp add: annotate_step_def optional_string_truthy)
  next
    case False
    with v(2,3) have "v = JStr (chosen_citation s)"
      by (cases v) (simp_all add: optional_string_def text_of_def)
    with v(1) False show ?thesis
      by (simp add: annotate_step_string)
  qed
qed

lemma annotate_each_well_typed:
  "list_all well_typed ss \<Longrightarrow>
   annotate_each (JStr t) ss k =
     Inr (JStr (fold (\<lambda>(i, s) a. if chosen_citation s = [] then a
                  else replace_all a (citation_pattern (chosen_citation s))
                         (chosen_citation s @ 32 # marker i)) (enumerate k ss) t))"
  by (induction ss arbitrary: t k) (simp_all add: annotate_step_well_typed)

lemma fold_empty:
  "fold (\<lambda>(i, s) a. if chosen_citation s = [] then a
                  else replace_all a (citation_pattern (chosen_citation s))
                         (chosen_citation s @ 32 # marker i)) (enumerate k ss) [] = []"
  by (induction ss arbitrary: k) (simp_all add: replace_all_empty)

lemma applyInlineCitations_well_typed:
  "list_all well_typed ss \<Longrightarrow>
   applyInlineCitations (JStr t) (JArr ss) =
     Inr (JStr (fold (\<lambda>(i, s) a. if chosen_citation s = [] then a
                  else replace_all a (citation_pattern (chosen_citation s))
                         (chosen_citation s @ 32 # marker i)) (enumerate 0 ss) t))"
  by (cases "t = []"; cases "ss = []")
     (simp_all add: applyInlineCitations_def length_is_0_def annotate_each_well_typed fold_empty)

lemma cards_well_typed:
  "list_all well_typed ss \<Longrightarrow>
   cards k ss =
     (map (\<lambda>(i, s).
        Created (js ''div'') [(js ''className'', js ''card mb-2 shadow-sm border-0'')]
          (card_innerHTML (decimal (i + 1))
             (if fld s ''case_name'' = [] then js ''Unknown Case'' else fld s ''case_name'')
             (chosen_citation s)
             (if fld s ''court'' = [] then [] else court_markup (fld s ''court''))
             (if fld s ''judgment_date'' = [] then [] else date_markup (fld s ''judgment_date''))
             (fld s ''summary'')
             (if fld s ''saflii_url'' = [] then [] else safliiBtn (fld s ''saflii_url''))
             (if fld s ''pdf_url'' = [] then [] else pdfBtn (fld s ''pdf_url''))))
        (enumerate k ss), None)"
  by (induction ss arbitrary: k) (simp_all add: card_well_typed)

lemma both_citations_fields:
  "fld both_citations ''case_name'' = []"
  "fld both_citations ''court'' = []"
  "fld both_citations ''judgment_date'' = []"
  "fld both_citations ''summary'' = []"
  "fld both_citations ''saflii_url'' = []"
  "fld both_citations ''pdf_url'' = []"
  by (simp_all add: both_citations_def fld_def field_def text_of_def js_simps)

lemma both_citations_well_typed: "well_typed both_citations"
  by (simp add: both_citations_def well_typed_def source_fields_def field_def
      optional_string_def js_simps)

lemma both_citations_chosen: "chosen_citation both_citations = js ''[2001] ZACC 1''"
  by (simp add: both_citations_def chosen_citation_def fld_def field_def text_of_def js_simps)

text \<open>
  C9. The citation string of a Source whose fields are absent, \<open>null\<close> or strings is
  its neutral citation when that is there and not empty, and its plain citation
  otherwise. For every list of such Sources, \<open>applyInlineCitations\<close> goes through the
  list in order and, for the Source at position \<open>i\<close>, leaves the text as it is when
  this string is empty, and otherwise replaces every match of the pattern of this string
  by the string, a space and marker \<open>i\<close>; \<open>renderSources\<close> makes one card per
  Source, with this string as the citation of the card; and the modal puts this string
  first in its line of citation, court and date.
\<close>

theorem citation_choice:
  "list_all well_typed ss \<Longrightarrow>
   applyInlineCitations (JStr t) (JArr ss) =
     Inr (JStr (fold (\<lambda>(i, s) a. if chosen_citation s = [] then a
                  else replace_all a (citation_pattern (chosen_citation s))
                         (chosen_citation s @ 32 # marker i)) (enumerate 0 ss) t)) \<and>
   (ss \<noteq> [] \<longrightarrow>
      renderSources (JArr ss) =
        (map (\<lambda>(i, s).
           Created (js ''div'') [(js ''className'', js ''card mb-2 shadow-sm border-0'')]
             (card_innerHTML (decimal (i + 1))
                (if fld s ''case_name'' = [] then js ''Unknown Case'' else fld s ''case_name'')
                (chosen_citation s)
                (if fld s ''court'' = [] then [] else court_markup (fld s ''court''))
                (if fld s ''judgment_date'' = [] then []
                 else date_markup (fld s ''judgment_date''))
                (fld s ''summary'')
                (if fld s ''saflii_url'' = [] then [] else safliiBtn (fld s ''saflii_url''))
                (if fld s ''pdf_url'' = [] then [] else pdfBtn (fld s ''pdf_url''))))
           (enumerate 0 ss), None)) \<and>
   (\<forall>s\<in>set ss.
      m_meta (fst (openSourceModal s h)) =
        join_with [32, 8226, 32]
          (present (chosen_citation s) @ present (fld s ''court'') @
           present (fld s ''judgment_date'')))"
proof -
  assume wt: "list_all well_typed ss"
  have 1: "applyInlineCitations (JStr t) (JArr ss) =
     Inr (JStr (fold (\<lambda>(i, s) a. if chosen_citation s = [] then a
                  else replace_all a (citation_pattern (chosen_citation s))
                         (chosen_citation s @ 32 # marker i)) (enumerate 0 ss) t))"
    using wt by (rule applyInlineCitations_well_typed)
  have 2: "ss \<noteq> [] \<longrightarrow>
      renderSources (JArr ss) =
        (map (\<lambda>(i, s).
           Created (js ''div'') [(js ''className'', js ''card mb-2 shadow-sm border-0'')]
             (card_innerHTML (decimal (i + 1))
                (if fld s ''case_name'' = [] then js ''Unknown Case'' else fld s ''case_name'')
                (chosen_citation s)
                (if fld s ''court'' = [] then [] else court_markup (fld s ''court''))
                (if fld s ''judgment_date'' = [] then []
                 else date_markup (fld s ''judgment_date''))
                (fld s ''summary'')
                (if fld s ''saflii_url'' = [] then [] else safliiBtn (fld s ''saflii_url''))
                (if fld s ''pdf_url'' = [] then [] else pdfBtn (fld s ''pdf_url''))))
           (enumerate 0 ss), None)"
    by (simp add: renderSources_def length_is_0_def cards_well_typed [OF wt])
  have 3: "\<forall>s\<in>set ss.
      m_meta (fst (openSourceModal s h)) =
        join_with [32, 8226, 32]
          (present (chosen_citation s) @ present (fld s ''court'') @
           present (fld s ''judgment_date''))"
  proof
    fix s assume "s \<in> set ss"
    with wt have "well_typed s"
      by (simp add: list_all_iff)
    then show "m_meta (fst (openSourceModal s h)) =
        join_with [32, 8226, 32]
          (present (chosen_citation s) @ present (fld s ''court'') @
           present (fld s ''judgment_date''))"
      by (simp add: openSourceModal_well_typed filter_present del: filter.simps)
  qed
  from 1 2 3 show ?thesis
    by blast
qed

theorem citation_choice_witness:
  "applyInlineCitations (JStr (js ''[2001] ZACC 1'')) (JArr [both_citations, court_only]) =
     Inr (JStr (js ''[2001] ZACC 1 '' @ marker 0)) \<and>
   renderSources (JArr [both_citations, court_only]) =
     ([Created (js ''div'') [(js ''className'', js ''card mb-2 shadow-sm border-0'')]
         (card_innerHTML (js ''1'') (js ''Unknown Case'') (js ''[2001] ZACC 1'') [] [] [] [] []),
       Created (js ''div'') [(js ''className'', js ''card mb-2 shadow-sm border-0'')]
         (card_innerHTML (js ''2'') (js ''Unknown Case'') [] (court_markup (js ''CC'')) [] [] [] [])],
      None) \<and>
   m_meta (fst (openSourceModal both_citations None)) = js ''[2001] ZACC 1''"
proof -
  have wt: "list_all well_typed [both_citations, court_only]"
    by (simp add: both_citations_well_typed court_only_well_typed)
  have r: "replace_all (js ''[2001] ZACC 1'') (citation_pattern (js ''[2001] ZACC 1''))
      (js ''[2001] ZACC 1'' @ 32 # marker 0) = js ''[2001] ZACC 1 '' @ marker 0"
    by (simp add: marker_0 js_simps replace_all_def citation_pattern_def guard_def is_digit_def)
  have d: "decimal (Suc 0) = js ''1''" "decimal (Suc (Suc 0)) = js ''2''"
    by (simp_all add: decimal_small js_simps)
  have ne: "js ''[2001] ZACC 1'' \<noteq> []"
    by (simp add: js_simps)
  have ne2: "js ''CC'' \<noteq> []"
    by (simp add: js_simps)
  from citation_choice [OF wt, of "js ''[2001] ZACC 1''" None] have
    1: "applyInlineCitations (JStr (js ''[2001] ZACC 1'')) (JArr [both_citations, court_only]) =
     Inr (JStr (fold (\<lambda>(i, s) a. if chosen_citation s = [] then a
                  else replace_all a (citation_pattern (chosen_citation s))
                         (chosen_citation s @ 32 # marker i))
                  (enumerate 0 [both_citations, court_only]) (js ''[2001] ZACC 1'')))" and
    2: "renderSources (JArr [both_citations, court_only]) =
        (map (\<lambda>(i, s).
           Created (js ''div'') [(js ''className'', js ''card mb-2 shadow-sm border-0'')]
             (card_innerHTML (decimal (i + 1))
                (if fld s ''case_name'' = [] then js ''Unknown Case'' else fld s ''case_name'')
                (chosen_citation s)
                (if fld s ''court'' = [] then [] else court_markup (fld s ''court''))
                (if fld s ''judgment_date'' = [] then []
                 else date_markup (fld s ''judgment_date''))
                (fld s ''summary'')
                (if fld s ''saflii_url'' = [] then [] else safliiBtn (fld s ''saflii_url''))
                (if fld s ''pdf_url'' = [] then [] else pdfBtn (fld s ''pdf_url''))))
           (enumerate 0 [both_citations, court_only]), None)" and
    3: "m_meta (fst (openSourceModal both_citations None)) =
        join_with [32, 8226, 32]
          (present (chosen_citation both_citations) @ present (fld both_citations ''court'') @
           present (fld both_citations ''judgment_date''))"
    by simp_all
  have "applyInlineCitations (JStr (js ''[2001] ZACC 1'')) (JArr [both_citations, court_only]) =
     Inr (JStr (js ''[2001] ZACC 1 '' @ marker 0))"
    unfolding 1 by (simp add: both_citations_chosen court_only_fields r ne)
  moreover have "renderSources (JArr [both_citations, court_only]) =
     ([Created (js ''div'') [(js ''className'', js ''card mb-2 shadow-sm border-0'')]
         (card_innerHTML (js ''1'') (js ''Unknown Case'') (js ''[2001] ZACC 1'') [] [] [] [] []),
       Created (js ''div'') [(js ''className'', js ''card mb-2 shadow-sm border-0'')]
         (card_innerHTML (js ''2'') (js ''Unknown Case'') [] (court_markup (js ''CC'')) [] [] [] [])],
      None)"
    unfolding 2 by (simp add: both_citations_chosen both_citations_fields court_only_fields d ne2)
  moreover have "m_meta (fst (openSourceModal both_citations None)) = js ''[2001] ZACC 1''"
    unfolding 3 by (simp add: both_citations_chosen both_citations_fields present_def js_simps)
  ultimately show ?thesis
    by blast
qed

end
